theory Spec2Isabelle
  imports Complex_Main
begin

section \<open>Data model\<close>

text \<open>
  The parsed page, as far as \<^verbatim>\<open>manual_table_scraping\<close> reads it: the list
  \<^verbatim>\<open>soup.find_all('table')\<close>; for each table the list \<^verbatim>\<open>table.find_all('tr')\<close>;
  for each row the texts \<^verbatim>\<open>cell.get_text(strip=True)\<close> of its \<^verbatim>\<open>td\<close>/\<^verbatim>\<open>th\<close>
  cells. Parsing itself is BeautifulSoup's.
\<close>

type_synonym html_row = "string list"
type_synonym html_table = "html_row list"
type_synonym soup = "html_table list"

text \<open>
  A pandas DataFrame, row-major: the column labels (duplicates are possible, as in
  pandas) and the rows of cells. \<open>Null\<close> is a missing value (NaN/None), the value
  \<^verbatim>\<open>isnull()\<close> detects. The frames the scraper builds hold \<open>Str\<close> cells only.
\<close>

datatype cell = Null | Str string | Num real | Bool bool

record dataframe =
  columns :: "string list"
  rows :: "cell list list"

definition shape :: "dataframe \<Rightarrow> nat \<times> nat" where
  "shape df = (length (rows df), length (columns df))"

text \<open>\<^verbatim>\<open>df.empty\<close>: one of the two axes has length 0.\<close>

definition df_empty :: "dataframe \<Rightarrow> bool" where
  "df_empty df = (length (rows df) = 0 \<or> length (columns df) = 0)"

text \<open>\<^verbatim>\<open>pd.DataFrame()\<close>: no rows, no columns.\<close>

definition pd_empty :: dataframe where
  "pd_empty = \<lparr>columns = [], rows = []\<rparr>"

text \<open>Every row has one cell per column: what pandas guarantees of any frame.\<close>

definition wf_df :: "dataframe \<Rightarrow> bool" where
  "wf_df df = list_all (\<lambda>r. length r = length (columns df)) (rows df)"

datatype value_error =
    NoDataToTransform
  | NoDataToLoad
  | UnsupportedSource string
  | UnsupportedDestination string
  | ColumnCountMismatch
  | AmbiguousTruthValue
  | NoFillValue

datatype error =
    ValueError value_error
  | TypeError
  | AttributeError
  | KeyError
  | IndexError
  | RequestException
  | SQLAlchemyError
  | OtherException

text \<open>
  \<^verbatim>\<open>pd.DataFrame(data, columns=headers)\<close> on a list of rows: with no rows, an empty
  frame with these labels; otherwise the longest row must have as many cells as there
  are labels (ValueError if not) and shorter rows are filled with missing values.
\<close>

definition pd_DataFrame :: "cell list list \<Rightarrow> string list \<Rightarrow> error + dataframe" where
  "pd_DataFrame data headers =
     (if data = [] then Inr \<lparr>columns = headers, rows = []\<rparr>
      else if fold max (map length data) 0 \<noteq> length headers
        then Inl (ValueError ColumnCountMismatch)
      else Inr \<lparr>columns = headers,
                rows = map (\<lambda>r. r @ replicate (length headers - length r) Null) data\<rparr>)"

section \<open>extract/web\_scraper.py\<close>

text \<open>Python's \<^verbatim>\<open>str(n)\<close> for a natural number, used by the f-string below.\<close>

fun str_nat :: "nat \<Rightarrow> string" where
  "str_nat n =
     (if n < 10 then [char_of (48 + n)]
      else str_nat (n div 10) @ [char_of (48 + n mod 10)])"

declare str_nat.simps [simp del]

text \<open>
  Lines 72-77: the rows of one table, each the list of its cell texts; a row with
  no cell is left out.
\<close>

definition extract_rows :: "html_table \<Rightarrow> string list list" where
  "extract_rows table = filter (\<lambda>cells. cells \<noteq> []) table"

text \<open>
  Lines 83-90: the header decision on the first row. Either the first row is the
  header and the rest is data, or the header is synthesized and every row is data.
\<close>

definition header_decision :: "string list list \<Rightarrow> error + (string list \<times> string list list)" where
  "header_decision data =
     (case data of
        [] \<Rightarrow> Inl IndexError
      | potential_headers # rest \<Rightarrow>
          if list_all (\<lambda>h. length h > 0) potential_headers
          then Inr (potential_headers, rest)
          else Inr (map (\<lambda>j. ''Colonne_'' @ str_nat (j + 1)) [0..<length potential_headers],
                    data))"

text \<open>Lines 95-100: one row brought to \<open>max_cols\<close> cells.\<close>

definition normalize_row :: "nat \<Rightarrow> string list \<Rightarrow> string list" where
  "normalize_row max_cols row =
     (if length row < max_cols then row @ replicate (max_cols - length row) ''''
      else if length row > max_cols then take max_cols row
      else row)"

text \<open>Lines 83-102: the frame built from the rows of one table.\<close>

definition table_to_df :: "string list list \<Rightarrow> error + dataframe" where
  "table_to_df data =
     (case header_decision data of
        Inl e \<Rightarrow> Inl e
      | Inr (headers, data_rows) \<Rightarrow>
          (let max_cols = length headers;
               normalized_rows = map (normalize_row max_cols) data_rows
           in pd_DataFrame (map (map Str) normalized_rows) headers))"

text \<open>
  Lines 69-106: the loop over the tables, \<open>candidate_dfs\<close> being the list built so
  far. An exception leaves the loop (and the function, through the handler of line 116).
\<close>

fun scrape_tables :: "html_table list \<Rightarrow> dataframe list \<Rightarrow> error + dataframe list" where
  "scrape_tables [] candidate_dfs = Inr candidate_dfs"
| "scrape_tables (table # tables) candidate_dfs =
     (let data = extract_rows table in
      if data = [] \<or> length data < 2 then scrape_tables tables candidate_dfs
      else (case table_to_df data of
              Inl e \<Rightarrow> Inl e
            | Inr df \<Rightarrow>
                if \<not> df_empty df then scrape_tables tables (candidate_dfs @ [df])
                else scrape_tables tables candidate_dfs))"

text \<open>
  Python's \<^verbatim>\<open>max(xs, key=f)\<close> on a non-empty list \<open>best # xs\<close>: the first element
  whose key is the largest (a later element replaces the best one only when its key is
  strictly larger).
\<close>

fun py_max :: "('a \<Rightarrow> nat) \<Rightarrow> 'a \<Rightarrow> 'a list \<Rightarrow> 'a" where
  "py_max key best [] = best"
| "py_max key best (x # xs) = (if key x > key best then py_max key x xs else py_max key best xs)"

text \<open>Line 110: the key, \<^verbatim>\<open>t.shape[0] * t.shape[1]\<close>.\<close>

definition area :: "dataframe \<Rightarrow> nat" where
  "area t = fst (shape t) * snd (shape t)"

text \<open>Lines 49-118; \<open>None\<close> is Python's \<^verbatim>\<open>None\<close>.\<close>

definition manual_table_scraping :: "soup \<Rightarrow> dataframe option" where
  "manual_table_scraping tables =
     (if tables = [] then None
      else (case scrape_tables tables [] of
              Inl e \<Rightarrow> None
            | Inr [] \<Rightarrow> None
            | Inr (c # cs) \<Rightarrow> Some (py_max area c cs)))"

text \<open>
  The candidates the loop has collected when it ends (lines 108-111 choose among
  them): those of the whole page.
\<close>

definition candidates :: "soup \<Rightarrow> dataframe list" where
  "candidates tables = (case scrape_tables tables [] of Inr cs \<Rightarrow> cs | Inl e \<Rightarrow> [])"

text \<open>
  What the request and the parser give \<^verbatim>\<open>scrape_cacao_ratings\<close> (lines 27-31):
  \<^verbatim>\<open>requests.get\<close> or \<^verbatim>\<open>raise_for_status\<close> raises a \<^verbatim>\<open>RequestException\<close>, or
  something else raises, or the page is fetched and parsed.
\<close>

datatype fetched = RequestFailed | ParseFailed | Page soup

text \<open>Lines 12-47. Every exception is caught; the result is always a frame.\<close>

definition scrape_cacao_ratings :: "fetched \<Rightarrow> dataframe" where
  "scrape_cacao_ratings page =
     (case page of
        RequestFailed \<Rightarrow> pd_empty
      | ParseFailed \<Rightarrow> pd_empty
      | Page soup \<Rightarrow>
          (case manual_table_scraping soup of
             Some df \<Rightarrow> if \<not> df_empty df then df else pd_empty
           | None \<Rightarrow> pd_empty))"

section \<open>Arguments passed by keyword\<close>

text \<open>
  The values a transformation step can carry in its \<^verbatim>\<open>params\<close>: \<^verbatim>\<open>None\<close>, a string,
  a number, a boolean, a list of names, a dictionary keyed by name.
\<close>

datatype pyarg =
    PNone
  | PStr string
  | PNum real
  | PBool bool
  | PList "string list"
  | PDict "(string \<times> pyarg) list"

type_synonym kwargs = "(string \<times> pyarg) list"

text \<open>
  A call \<^verbatim>\<open>f(df, **params)\<close>: a keyword that \<open>f\<close> does not declare (or that names the
  positional \<^verbatim>\<open>df\<close> again), or a parameter without default that is not given, is a
  TypeError. \<open>names\<close> are the keyword parameters of \<open>f\<close>, \<open>required\<close> those without
  default.
\<close>

definition bind_kwargs :: "string list \<Rightarrow> string list \<Rightarrow> kwargs \<Rightarrow> error + kwargs" where
  "bind_kwargs names required kw =
     (if list_all (\<lambda>k. k \<in> set names) (map fst kw) \<and>
         list_all (\<lambda>n. n \<in> set (map fst kw)) required
      then Inr kw else Inl TypeError)"

definition kw_get :: "kwargs \<Rightarrow> string \<Rightarrow> pyarg \<Rightarrow> pyarg" where
  "kw_get kw k dflt = (case map_of kw k of Some v \<Rightarrow> v | None \<Rightarrow> dflt)"

text \<open>\<^verbatim>\<open>d.get(key, default)\<close>; only a dictionary has the method.\<close>

definition dict_get :: "pyarg \<Rightarrow> string \<Rightarrow> pyarg \<Rightarrow> error + pyarg" where
  "dict_get d k dflt =
     (case d of
        PDict kvs \<Rightarrow> (case map_of kvs k of Some v \<Rightarrow> Inr v | None \<Rightarrow> Inr dflt)
      | _ \<Rightarrow> Inl AttributeError)"

section \<open>The pandas operations the transformations call\<close>

text \<open>
  The statistics, the dtype tests and the encoders are pandas' own; the transformations
  are modelled for any behaviour of them. A column is the list of its cells.
  \<open>fillna_method\<close> is \<^verbatim>\<open>fillna(method=...)\<close>; \<open>encode_column\<close> is the three calls
  \<^verbatim>\<open>get_dummies\<close>, \<^verbatim>\<open>concat\<close>, \<^verbatim>\<open>drop\<close> of \<^verbatim>\<open>one_hot_encode\<close> (from the frame, the
  frame encoded so far, the column and \<^verbatim>\<open>drop_first\<close>); \<open>date_features\<close> is
  \<^verbatim>\<open>to_datetime\<close> with the \<^verbatim>\<open>.dt\<close> columns of \<^verbatim>\<open>create_date_features\<close>.
\<close>

record pandas =
  is_numeric_dtype :: "cell list \<Rightarrow> bool"
  mean :: "cell list \<Rightarrow> cell"
  median :: "cell list \<Rightarrow> cell"
  mode :: "cell list \<Rightarrow> cell list"
  fillna_method :: "cell list \<Rightarrow> string \<Rightarrow> error + cell list"
  is_object_or_category :: "cell list \<Rightarrow> bool"
  encode_column :: "dataframe \<Rightarrow> dataframe \<Rightarrow> string \<Rightarrow> pyarg \<Rightarrow> error + dataframe"
  date_features :: "dataframe \<Rightarrow> string \<Rightarrow> error + dataframe"
  is_dtype_equal :: "cell list \<Rightarrow> pyarg \<Rightarrow> bool"

text \<open>The column at position \<open>j\<close> (every row of a frame has a cell there).\<close>

definition column_at :: "dataframe \<Rightarrow> nat \<Rightarrow> cell list" where
  "column_at df j = map (\<lambda>r. r ! j) (rows df)"

text \<open>
  \<^verbatim>\<open>df[column]\<close>: the columns carrying the label, in order. One column is a Series;
  with a duplicated label pandas gives a frame of all of them.
\<close>

definition getitem :: "dataframe \<Rightarrow> string \<Rightarrow> cell list list" where
  "getitem df column =
     map (column_at df) (filter (\<lambda>j. columns df ! j = column) [0..<length (columns df)])"

text \<open>
  \<^verbatim>\<open>df[column] = series\<close>: the cells under the label are replaced; a label the frame
  does not have yet becomes a new last column.
\<close>

definition setitem :: "dataframe \<Rightarrow> string \<Rightarrow> cell list \<Rightarrow> dataframe" where
  "setitem df column series =
     (if column \<in> set (columns df)
      then df\<lparr>rows := map2 (\<lambda>r v. map2 (\<lambda>c x. if c = column then v else x) (columns df) r)
                          (rows df) series\<rparr>
      else df\<lparr>columns := columns df @ [column],
              rows := map2 (\<lambda>r v. r @ [v]) (rows df) series\<rparr>)"

text \<open>
  \<^verbatim>\<open>series.fillna(value)\<close>: the missing cells take the value; \<^verbatim>\<open>fillna(None)\<close> is a
  ValueError (no value and no method). Filling with NaN changes nothing.
\<close>

definition fillna :: "cell list \<Rightarrow> cell option \<Rightarrow> error + cell list" where
  "fillna series v =
     (case v of
        None \<Rightarrow> Inl (ValueError NoFillValue)
      | Some x \<Rightarrow> Inr (map (\<lambda>c. if c = Null then x else c) series))"

text \<open>
  A library in which every operation fails or finds nothing, to evaluate the
  transformations on inputs where no pandas operation is reached.
\<close>

definition stub_pandas :: pandas where
  "stub_pandas =
     \<lparr>is_numeric_dtype = (\<lambda>series. False),
      mean = (\<lambda>series. Null),
      median = (\<lambda>series. Null),
      mode = (\<lambda>series. []),
      fillna_method = (\<lambda>series method. Inl OtherException),
      is_object_or_category = (\<lambda>series. True),
      encode_column = (\<lambda>df df_encoded column drop_first. Inl OtherException),
      date_features = (\<lambda>df column. Inl OtherException),
      is_dtype_equal = (\<lambda>series expected_type. False)\<rparr>"

section \<open>transform/missing\_values.py\<close>

text \<open>\<^verbatim>\<open>df[column].mode()[0] if not df[column].mode().empty else None\<close>\<close>

definition first_mode :: "pandas \<Rightarrow> cell list \<Rightarrow> cell option" where
  "first_mode lib series = (case mode lib series of [] \<Rightarrow> None | m # _ \<Rightarrow> Some m)"

text \<open>
  Lines 64-83, for one column that has missing values: the chain of strategies and the
  fill. A boolean is an \<^verbatim>\<open>int\<close> for \<^verbatim>\<open>isinstance\<close>.
\<close>

definition impute_column :: "pandas \<Rightarrow> cell list \<Rightarrow> pyarg \<Rightarrow> error + cell list" where
  "impute_column lib series col_strategy =
     (if col_strategy = PStr ''mean'' \<and> is_numeric_dtype lib series
        then fillna series (Some (mean lib series))
      else if col_strategy = PStr ''median'' \<and> is_numeric_dtype lib series
        then fillna series (Some (median lib series))
      else if col_strategy = PStr ''mode''
        then fillna series (first_mode lib series)
      else if col_strategy = PStr ''ffill''
        then fillna_method lib series ''ffill''
      else if col_strategy = PStr ''bfill''
        then fillna_method lib series ''bfill''
      else (case col_strategy of
              PNum x \<Rightarrow> fillna series (Some (Num x))
            | PBool b \<Rightarrow> fillna series (Some (Bool b))
            | _ \<Rightarrow> fillna series (first_mode lib series)))"

text \<open>
  Lines 62-84, the loop over \<^verbatim>\<open>df.columns\<close>. The test
  \<^verbatim>\<open>if df[column].isnull().sum() > 0\<close> is made on a number when the label names one
  column; when it names several, the sum is a Series and its truth value is a
  ValueError.
\<close>

fun impute_columns ::
  "pandas \<Rightarrow> dataframe \<Rightarrow> pyarg \<Rightarrow> pyarg \<Rightarrow> string list \<Rightarrow> dataframe \<Rightarrow> error + dataframe" where
  "impute_columns lib df strategy default_strategy [] df_imputed = Inr df_imputed"
| "impute_columns lib df strategy default_strategy (column # cs) df_imputed =
     (case getitem df column of
        [] \<Rightarrow> Inl KeyError
      | [series] \<Rightarrow>
          if Null \<in> set series then
            (case dict_get strategy column default_strategy of
               Inl e \<Rightarrow> Inl e
             | Inr col_strategy \<Rightarrow>
                 (case impute_column lib series col_strategy of
                    Inl e \<Rightarrow> Inl e
                  | Inr filled \<Rightarrow>
                      impute_columns lib df strategy default_strategy cs
                        (setitem df_imputed column filled)))
          else impute_columns lib df strategy default_strategy cs df_imputed
      | _ \<Rightarrow> Inl (ValueError AmbiguousTruthValue))"

text \<open>Lines 43-87.\<close>

definition impute_missing_values :: "pandas \<Rightarrow> dataframe \<Rightarrow> pyarg \<Rightarrow> pyarg \<Rightarrow> error + dataframe" where
  "impute_missing_values lib df strategy default_strategy =
     (let df_imputed = df;
          strategy = (if strategy = PNone then PDict [] else strategy)
      in impute_columns lib df strategy default_strategy (columns df) df_imputed)"

text \<open>No cell of the frame is missing: \<^verbatim>\<open>df.isnull()\<close> is false everywhere.\<close>

definition no_missing :: "dataframe \<Rightarrow> bool" where
  "no_missing df = list_all (\<lambda>r. Null \<notin> set r) (rows df)"

text \<open>
  Two calls in a row, the second on the result of the first (an exception of the first
  is the exception of both).
\<close>

definition impute_twice :: "pandas \<Rightarrow> dataframe \<Rightarrow> pyarg \<Rightarrow> pyarg \<Rightarrow> error + dataframe" where
  "impute_twice lib df strategy default_strategy =
     (case impute_missing_values lib df strategy default_strategy of
        Inl e \<Rightarrow> Inl e
      | Inr df1 \<Rightarrow> impute_missing_values lib df1 strategy default_strategy)"

section \<open>transform/encoding.py, validation.py, feature\_engineering.py\<close>

text \<open>
  What \<^verbatim>\<open>for column in columns\<close> iterates over: the names of a list, the keys of a
  dictionary, the characters of a string; anything else is not iterable.
\<close>

definition iter_names :: "pyarg \<Rightarrow> error + string list" where
  "iter_names a =
     (case a of
        PList names \<Rightarrow> Inr names
      | PDict kvs \<Rightarrow> Inr (map fst kvs)
      | PStr s \<Rightarrow> Inr (map (\<lambda>c. [c]) s)
      | _ \<Rightarrow> Inl TypeError)"

fun encode_columns :: "pandas \<Rightarrow> dataframe \<Rightarrow> pyarg \<Rightarrow> string list \<Rightarrow> dataframe \<Rightarrow> error + dataframe" where
  "encode_columns lib df drop_first [] df_encoded = Inr df_encoded"
| "encode_columns lib df drop_first (column # cs) df_encoded =
     (if column \<in> set (columns df) then
        (case encode_column lib df df_encoded column drop_first of
           Inl e \<Rightarrow> Inl e
         | Inr d \<Rightarrow> encode_columns lib df drop_first cs d)
      else encode_columns lib df drop_first cs df_encoded)"

text \<open>
  \<^verbatim>\<open>DataEncoder.one_hot_encode\<close>; without \<^verbatim>\<open>columns\<close>, the labels of the columns that
  \<^verbatim>\<open>select_dtypes(include=['object', 'category'])\<close> keeps.
\<close>

definition one_hot_encode :: "pandas \<Rightarrow> dataframe \<Rightarrow> pyarg \<Rightarrow> pyarg \<Rightarrow> error + dataframe" where
  "one_hot_encode lib df cols drop_first =
     (case (if cols = PNone
            then Inr (map (\<lambda>j. columns df ! j)
                       (filter (\<lambda>j. is_object_or_category lib (column_at df j))
                          [0..<length (columns df)]))
            else iter_names cols) of
        Inl e \<Rightarrow> Inl e
      | Inr names \<Rightarrow> encode_columns lib df drop_first names df)"

datatype validation_error = MissingColumn string | WrongType string

fun validate_columns ::
  "pandas \<Rightarrow> dataframe \<Rightarrow> (string \<times> pyarg) list \<Rightarrow> bool \<times> validation_error list
     \<Rightarrow> error + (bool \<times> validation_error list)" where
  "validate_columns lib df [] res = Inr res"
| "validate_columns lib df ((column, expected_type) # items) (valid, errors) =
     (if column \<notin> set (columns df)
      then validate_columns lib df items (False, errors @ [MissingColumn column])
      else (case getitem df column of
              [series] \<Rightarrow>
                if \<not> is_dtype_equal lib series expected_type
                then validate_columns lib df items (False, errors @ [WrongType column])
                else validate_columns lib df items (valid, errors)
            | _ \<Rightarrow> Inl AttributeError))"

text \<open>
  \<^verbatim>\<open>DataValidator.validate_data_types\<close>: the \<^verbatim>\<open>valid\<close> flag and the \<^verbatim>\<open>errors\<close> of its
  result. \<^verbatim>\<open>expected_types.items()\<close> needs a dictionary; \<^verbatim>\<open>df[column].dtype\<close> needs
  a Series.
\<close>

definition validate_data_types ::
  "pandas \<Rightarrow> dataframe \<Rightarrow> pyarg \<Rightarrow> error + (bool \<times> validation_error list)" where
  "validate_data_types lib df expected_types =
     (case expected_types of
        PDict items \<Rightarrow> validate_columns lib df items (True, [])
      | _ \<Rightarrow> Inl AttributeError)"

text \<open>
  \<^verbatim>\<open>FeatureEngineer.create_date_features\<close>. \<^verbatim>\<open>date_column in df.columns\<close> is a
  TypeError for an unhashable value and false for a value that is not a label.
\<close>

definition create_date_features :: "pandas \<Rightarrow> dataframe \<Rightarrow> pyarg \<Rightarrow> error + dataframe" where
  "create_date_features lib df date_column =
     (case date_column of
        PStr name \<Rightarrow> if name \<in> set (columns df) then date_features lib df name else Inr df
      | PList _ \<Rightarrow> Inl TypeError
      | PDict _ \<Rightarrow> Inl TypeError
      | _ \<Rightarrow> Inr df)"

section \<open>load/to\_postgres.py\<close>

text \<open>
  The database as the loader meets it: whether a connection can be made, what
  \<^verbatim>\<open>df.to_sql(table_name, engine, if_exists=...)\<close> does (it writes, raises a
  \<^verbatim>\<open>SQLAlchemyError\<close>, or raises something else), and the writes attempted so far.
\<close>

datatype sql_result = Written | SqlFailed | Crashed

record database =
  can_connect :: bool
  to_sql :: "string \<Rightarrow> dataframe \<Rightarrow> string \<Rightarrow> sql_result"
  writes :: "(string \<times> dataframe \<times> string) list"

record loader =
  engine :: "unit option"

text \<open>\<^verbatim>\<open>_connect\<close> (lines 29-39) and \<^verbatim>\<open>__init__\<close> (lines 18-27).\<close>

definition connect :: "database \<Rightarrow> loader \<Rightarrow> error + loader" where
  "connect db ld = (if can_connect db then Inr (ld\<lparr>engine := Some ()\<rparr>) else Inl SQLAlchemyError)"

definition PostgreSQLLoader :: "database \<Rightarrow> error + loader" where
  "PostgreSQLLoader db = connect db \<lparr>engine = None\<rparr>"

text \<open>
  \<^verbatim>\<open>load_dataframe\<close> (lines 41-73): the returned boolean, or the exception that is not
  a \<^verbatim>\<open>SQLAlchemyError\<close>, with the database after the call.
\<close>

definition load_dataframe ::
  "database \<Rightarrow> loader \<Rightarrow> dataframe \<Rightarrow> string \<Rightarrow> string \<Rightarrow> (error + bool) \<times> database" where
  "load_dataframe db ld df table_name if_exists =
     (if df_empty df then (Inr False, db)
      else (case (if engine ld = None then connect db ld else Inr ld) of
              Inl e \<Rightarrow> (Inr False, db)
            | Inr ld' \<Rightarrow>
                (let db' = db\<lparr>writes := writes db @ [(table_name, df, if_exists)]\<rparr> in
                 case to_sql db table_name df if_exists of
                   Written \<Rightarrow> (Inr True, db')
                 | SqlFailed \<Rightarrow> (Inr False, db')
                 | Crashed \<Rightarrow> (Inl OtherException, db'))))"

section \<open>pipelines/etl\_pipeline.py\<close>

text \<open>The records of the module's logger, by the call that writes them.\<close>

datatype log_record =
    InfoInit
  | InfoExtractStart string
  | InfoExtractDone nat nat
  | ErrorExtract error
  | InfoTransformStart
  | InfoApply string
  | WarnValidation "validation_error list"
  | WarnUnrecognized string
  | InfoTransformDone nat
  | ErrorTransform error
  | InfoLoadStart string
  | InfoLoadDone
  | ErrorLoadFailed
  | ErrorLoad error
  | InfoRunStart
  | InfoRunDone
  | ErrorRunFailed
  | ErrorRun error

record pipeline =
  raw_data :: "dataframe option"
  transformed_data :: "dataframe option"
  pipeline_loader :: "loader option"
  logged :: "log_record list"

text \<open>\<^verbatim>\<open>ETLPipeline.__init__\<close> (lines 25-30).\<close>

definition ETLPipeline :: pipeline where
  "ETLPipeline =
     \<lparr>raw_data = None, transformed_data = None, pipeline_loader = None, logged = [InfoInit]\<rparr>"

text \<open>
  \<^verbatim>\<open>ETLPipeline.extract\<close> (lines 32-44); \<open>page\<close> is what the request gives when the
  scraper runs.
\<close>

definition extract_data :: "fetched \<Rightarrow> pipeline \<Rightarrow> string \<Rightarrow> (error + dataframe) \<times> pipeline" where
  "extract_data page p source =
     (let p = p\<lparr>logged := logged p @ [InfoExtractStart source]\<rparr> in
      if source = ''web_scraping'' then
        (let df = scrape_cacao_ratings page in
         (Inr df, p\<lparr>raw_data := Some df,
                    logged := logged p @ [InfoExtractDone (fst (shape df)) (snd (shape df))]\<rparr>))
      else
        (let e = ValueError (UnsupportedSource source) in
         (Inl e, p\<lparr>logged := logged p @ [ErrorExtract e]\<rparr>)))"

text \<open>A transformation step: \<^verbatim>\<open>{'function': ..., 'params': {...}}\<close>.\<close>

record step =
  func_name :: string
  params :: kwargs

text \<open>The four calls of lines 60-75, each with \<^verbatim>\<open>**params\<close>.\<close>

definition call_impute_missing_values :: "pandas \<Rightarrow> dataframe \<Rightarrow> kwargs \<Rightarrow> error + dataframe" where
  "call_impute_missing_values lib df kw =
     (case bind_kwargs [''strategy'', ''default_strategy''] [] kw of
        Inl e \<Rightarrow> Inl e
      | Inr kw \<Rightarrow>
          impute_missing_values lib df (kw_get kw ''strategy'' PNone)
            (kw_get kw ''default_strategy'' (PStr ''mean'')))"

definition call_one_hot_encode :: "pandas \<Rightarrow> dataframe \<Rightarrow> kwargs \<Rightarrow> error + dataframe" where
  "call_one_hot_encode lib df kw =
     (case bind_kwargs [''columns'', ''drop_first''] [] kw of
        Inl e \<Rightarrow> Inl e
      | Inr kw \<Rightarrow>
          one_hot_encode lib df (kw_get kw ''columns'' PNone) (kw_get kw ''drop_first'' (PBool False)))"

definition call_validate_data_types ::
  "pandas \<Rightarrow> dataframe \<Rightarrow> kwargs \<Rightarrow> error + (bool \<times> validation_error list)" where
  "call_validate_data_types lib df kw =
     (case bind_kwargs [''expected_types''] [''expected_types''] kw of
        Inl e \<Rightarrow> Inl e
      | Inr kw \<Rightarrow> validate_data_types lib df (kw_get kw ''expected_types'' PNone))"

definition call_create_date_features :: "pandas \<Rightarrow> dataframe \<Rightarrow> kwargs \<Rightarrow> error + dataframe" where
  "call_create_date_features lib df kw =
     (case bind_kwargs [''date_column''] [''date_column''] kw of
        Inl e \<Rightarrow> Inl e
      | Inr kw \<Rightarrow> create_date_features lib df (kw_get kw ''date_column'' PNone))"

text \<open>
  One turn of the loop of lines 53-76, on \<^verbatim>\<open>self.transformed_data\<close> and the log: the
  exception raised if any, the table and the log after the step.
\<close>

definition apply_step ::
  "pandas \<Rightarrow> step \<Rightarrow> dataframe \<times> log_record list \<Rightarrow> error option \<times> dataframe \<times> log_record list" where
  "apply_step lib transformation s =
     (let df = fst s;
          lg = snd s @ [InfoApply (func_name transformation)];
          kw = params transformation
      in
      if func_name transformation = ''handle_missing_values'' then
        (case call_impute_missing_values lib df kw of
           Inl e \<Rightarrow> (Some e, df, lg)
         | Inr d \<Rightarrow> (None, d, lg))
      else if func_name transformation = ''encode_categorical'' then
        (case call_one_hot_encode lib df kw of
           Inl e \<Rightarrow> (Some e, df, lg)
         | Inr d \<Rightarrow> (None, d, lg))
      else if func_name transformation = ''validate_data'' then
        (case call_validate_data_types lib df kw of
           Inl e \<Rightarrow> (Some e, df, lg)
         | Inr result \<Rightarrow>
             (None, df, if \<not> fst result then lg @ [WarnValidation (snd result)] else lg))
      else if func_name transformation = ''create_features'' then
        (case call_create_date_features lib df kw of
           Inl e \<Rightarrow> (Some e, df, lg)
         | Inr d \<Rightarrow> (None, d, lg))
      else (None, df, lg @ [WarnUnrecognized (func_name transformation)]))"

text \<open>The loop: it stops at the first exception.\<close>

fun apply_transformations ::
  "pandas \<Rightarrow> step list \<Rightarrow> dataframe \<times> log_record list \<Rightarrow> error option \<times> dataframe \<times> log_record list" where
  "apply_transformations lib [] s = (None, s)"
| "apply_transformations lib (transformation # ts) s =
     (case apply_step lib transformation s of
        (Some e, s') \<Rightarrow> (Some e, s')
      | (None, s') \<Rightarrow> apply_transformations lib ts s')"

text \<open>The names the loop dispatches on.\<close>

definition recognized :: "string list" where
  "recognized = [''handle_missing_values'', ''encode_categorical'', ''validate_data'', ''create_features'']"

text \<open>\<^verbatim>\<open>transform\<close> (lines 46-82): what it returns or raises, and the pipeline after.\<close>

definition transform :: "pandas \<Rightarrow> pipeline \<Rightarrow> step list \<Rightarrow> (error + dataframe) \<times> pipeline" where
  "transform lib p transformations =
     (case raw_data p of
        None \<Rightarrow> (Inl (ValueError NoDataToTransform), p)
      | Some raw \<Rightarrow>
          (case apply_transformations lib transformations (raw, logged p @ [InfoTransformStart]) of
             (Some e, df, lg) \<Rightarrow>
               (Inl e, p\<lparr>transformed_data := Some df, logged := lg @ [ErrorTransform e]\<rparr>)
           | (None, df, lg) \<Rightarrow>
               (Inr df, p\<lparr>transformed_data := Some df,
                          logged := lg @ [InfoTransformDone (snd (shape df))]\<rparr>)))"

text \<open>
  \<^verbatim>\<open>load\<close> (lines 84-108); \<open>kw\<close> are its keyword options \<^verbatim>\<open>table_name\<close> and
  \<^verbatim>\<open>if_exists\<close>.
\<close>

definition opt_get :: "(string \<times> string) list \<Rightarrow> string \<Rightarrow> string \<Rightarrow> string" where
  "opt_get kw k dflt = (case map_of kw k of Some v \<Rightarrow> v | None \<Rightarrow> dflt)"

definition load ::
  "database \<Rightarrow> pipeline \<Rightarrow> string \<Rightarrow> (string \<times> string) list
     \<Rightarrow> (error + bool) \<times> pipeline \<times> database" where
  "load db p destination kw =
     (case transformed_data p of
        None \<Rightarrow> (Inl (ValueError NoDataToLoad), p, db)
      | Some df \<Rightarrow>
          (let p = p\<lparr>logged := logged p @ [InfoLoadStart destination]\<rparr> in
           if destination = ''postgres'' then
             (let table_name = opt_get kw ''table_name'' ''cacao_ratings'' in
              case PostgreSQLLoader db of
                Inl e \<Rightarrow> (Inl e, p\<lparr>logged := logged p @ [ErrorLoad e]\<rparr>, db)
              | Inr ld \<Rightarrow>
                  (let p = p\<lparr>pipeline_loader := Some ld\<rparr> in
                   case load_dataframe db ld df table_name (opt_get kw ''if_exists'' ''replace'') of
                     (Inl e, db') \<Rightarrow> (Inl e, p\<lparr>logged := logged p @ [ErrorLoad e]\<rparr>, db')
                   | (Inr success, db') \<Rightarrow>
                       (Inr success,
                        p\<lparr>logged := logged p @ [if success then InfoLoadDone else ErrorLoadFailed]\<rparr>,
                        db')))
           else
             (let e = ValueError (UnsupportedDestination destination) in
              (Inl e, p\<lparr>logged := logged p @ [ErrorLoad e]\<rparr>, db))))"

text \<open>The step list of lines 121-125, used when none is given.\<close>

definition default_transformations :: "step list" where
  "default_transformations =
     [\<lparr>func_name = ''handle_missing_values'',
       params = [(''strategy'', PDict []), (''default_strategy'', PStr ''mean'')]\<rparr>,
      \<lparr>func_name = ''encode_categorical'',
       params = [(''columns'', PNone), (''drop_first'', PBool True)]\<rparr>,
      \<lparr>func_name = ''validate_data'', params = []\<rparr>]"

text \<open>
  \<^verbatim>\<open>run_pipeline\<close> (lines 110-137). Every exception ends in \<^verbatim>\<open>return False\<close>. A
  keyword of \<^verbatim>\<open>source_kwargs\<close> or \<^verbatim>\<open>load_kwargs\<close> that names a positional parameter
  of the call (\<^verbatim>\<open>self\<close> included) is a TypeError of the call.
\<close>

definition run_pipeline ::
  "pandas \<Rightarrow> fetched \<Rightarrow> database \<Rightarrow> pipeline \<Rightarrow> string \<Rightarrow> step list option \<Rightarrow> string
     \<Rightarrow> kwargs \<Rightarrow> (string \<times> string) list \<Rightarrow> bool \<times> pipeline \<times> database" where
  "run_pipeline lib page db p source transformations destination source_kwargs load_kwargs =
     (let p = p\<lparr>logged := logged p @ [InfoRunStart]\<rparr> in
      if ''source'' \<in> set (map fst source_kwargs) \<or> ''self'' \<in> set (map fst source_kwargs)
      then (False, p\<lparr>logged := logged p @ [ErrorRun TypeError]\<rparr>, db)
      else
        (case extract_data page p source of
           (Inl e, p) \<Rightarrow> (False, p\<lparr>logged := logged p @ [ErrorRun e]\<rparr>, db)
         | (Inr raw, p) \<Rightarrow>
             (let transformations =
                    (case transformations of None \<Rightarrow> default_transformations | Some ts \<Rightarrow> ts)
              in
              case transform lib p transformations of
                (Inl e, p) \<Rightarrow> (False, p\<lparr>logged := logged p @ [ErrorRun e]\<rparr>, db)
              | (Inr transformed, p) \<Rightarrow>
                  if ''destination'' \<in> set (map fst load_kwargs) \<or>
                     ''self'' \<in> set (map fst load_kwargs)
                  then (False, p\<lparr>logged := logged p @ [ErrorRun TypeError]\<rparr>, db)
                  else
                    (case load db p destination load_kwargs of
                       (Inl e, p, db') \<Rightarrow> (False, p\<lparr>logged := logged p @ [ErrorRun e]\<rparr>, db')
                     | (Inr success, p, db') \<Rightarrow>
                         (success,
                          p\<lparr>logged := logged p @ [if success then InfoRunDone else ErrorRunFailed]\<rparr>,
                          db')))))"

text \<open>
  The pipelines on which no extraction has succeeded yet: the one the constructor
  gives, and any pipeline such a one becomes by an \<^verbatim>\<open>extract\<close> that raises, by
  \<^verbatim>\<open>transform\<close> or by \<^verbatim>\<open>load\<close>.
\<close>

inductive never_extracted :: "pipeline \<Rightarrow> bool" where
  constructed: "never_extracted ETLPipeline"
| extract_raised:
    "never_extracted p \<Longrightarrow> extract_data page p source = (Inl e, p') \<Longrightarrow> never_extracted p'"
| after_transform:
    "never_extracted p \<Longrightarrow> transform lib p transformations = (r, p') \<Longrightarrow> never_extracted p'"
| after_load:
    "never_extracted p \<Longrightarrow> load db p destination kw = (r', p', db') \<Longrightarrow> never_extracted p'"

section \<open>Sample inputs\<close>

definition small_table :: html_table where
  "small_table = [[''a'', ''b''], [''1'', ''2''], [''3'', ''4''], [''5'', ''6'']]"

definition big_table :: html_table where
  "big_table =
     [''a'', ''b'', ''c'', ''d'', ''e''] # replicate 10 [''1'', ''2'', ''3'', ''4'', ''5'']"

definition small_df :: dataframe where
  "small_df =
     \<lparr>columns = [''a'', ''b''],
      rows = [[Str ''1'', Str ''2''], [Str ''3'', Str ''4''], [Str ''5'', Str ''6'']]\<rparr>"

definition big_df :: dataframe where
  "big_df =
     \<lparr>columns = [''a'', ''b'', ''c'', ''d'', ''e''],
      rows = replicate 10 [Str ''1'', Str ''2'', Str ''3'', Str ''4'', Str ''5'']\<rparr>"

definition one_row_table :: html_table where
  "one_row_table = [[''only'', ''row''], []]"

definition blank_header_table :: html_table where
  "blank_header_table = [['''', ''x''], [''1'', ''2'']]"

definition twin_header_table :: html_table where
  "twin_header_table = [[''A'', ''A''], [''1'', ''2'']]"

definition twin_header_df :: dataframe where
  "twin_header_df = \<lparr>columns = [''A'', ''A''], rows = [[Str ''1'', Str ''2'']]\<rparr>"

text \<open>A database that accepts every connection and every write.\<close>

definition open_db :: database where
  "open_db = \<lparr>can_connect = True, to_sql = (\<lambda>table_name df if_exists. Written), writes = []\<rparr>"

definition unknown_step :: step where
  "unknown_step = \<lparr>func_name = ''scale_features'', params = []\<rparr>"

definition impute_step :: step where
  "impute_step = \<lparr>func_name = ''handle_missing_values'', params = []\<rparr>"

definition tall_table :: html_table where
  "tall_table = [[''n''], [''1''], [''2''], [''3''], [''4''], [''5'']]"

definition tall_df :: dataframe where
  "tall_df = \<lparr>columns = [''n''], rows = [[Str ''1''], [Str ''2''], [Str ''3''], [Str ''4''], [Str ''5'']]\<rparr>"

definition wide_table :: html_table where
  "wide_table = [[''p'', ''q'', ''r'', ''s''], [''1'', ''2'', ''3'', ''4'']]"

definition wide_df :: dataframe where
  "wide_df = \<lparr>columns = [''p'', ''q'', ''r'', ''s''], rows = [[Str ''1'', Str ''2'', Str ''3'', Str ''4'']]\<rparr>"

definition flat_table :: html_table where
  "flat_table = [[''x'', ''y'', ''z''], [''1'', ''2'', ''3''], [''4'', ''5'', ''6'']]"

definition flat_df :: dataframe where
  "flat_df =
     \<lparr>columns = [''x'', ''y'', ''z''],
      rows = [[Str ''1'', Str ''2'', Str ''3''], [Str ''4'', Str ''5'', Str ''6'']]\<rparr>"

definition grid_3x2 :: html_table where
  "grid_3x2 = [[''a'', ''b''], [''1'', ''2''], [''3'', ''4'']]"

definition grid_10x5 :: html_table where
  "grid_10x5 =
     [''a'', ''b'', ''c'', ''d'', ''e''] # replicate 9 [''1'', ''2'', ''3'', ''4'', ''5'']"

definition grid_10x5_df :: dataframe where
  "grid_10x5_df =
     \<lparr>columns = [''a'', ''b'', ''c'', ''d'', ''e''],
      rows = replicate 9 [Str ''1'', Str ''2'', Str ''3'', Str ''4'', Str ''5'']\<rparr>"

definition grid_2x5 :: html_table where
  "grid_2x5 = [[''a'', ''b'', ''c'', ''d'', ''e''], [''1'', ''2'', ''3'', ''4'', ''5'']]"

section \<open>The scraper: the frame of one table\<close>

lemma fold_max_const:
  "\<forall>n\<in>set ns. n = k \<Longrightarrow> fold max ns (a::nat) = (if ns = [] then a else max a k)"
  by (induction ns arbitrary: a) auto

lemma length_normalize_row: "length (normalize_row k row) = k"
  by (simp add: normalize_row_def)

lemma pd_DataFrame_normalized:
  "pd_DataFrame (map (map Str) (map (normalize_row (length headers)) data_rows)) headers =
     Inr \<lparr>columns = headers, rows = map (map Str \<circ> normalize_row (length headers)) data_rows\<rparr>"
proof (cases "data_rows = []")
  case True
  then show ?thesis by (simp add: pd_DataFrame_def)
next
  case False
  have "fold max (map length (map (map Str) (map (normalize_row (length headers)) data_rows))) 0
          = length headers"
    using False by (subst fold_max_const [where k = "length headers"]) (auto simp: length_normalize_row)
  then show ?thesis
    using False by (simp add: pd_DataFrame_def length_normalize_row)
qed

lemma table_to_df_total:
  "table_to_df (r0 # rest) =
     (if list_all (\<lambda>h. length h > 0) r0
      then Inr \<lparr>columns = r0, rows = map (map Str \<circ> normalize_row (length r0)) rest\<rparr>
      else Inr \<lparr>columns = map (\<lambda>j. ''Colonne_'' @ str_nat (j + 1)) [0..<length r0],
                rows = map (map Str \<circ> normalize_row (length r0)) (r0 # rest)\<rparr>)"
  using pd_DataFrame_normalized [of r0 rest]
    pd_DataFrame_normalized [of "map (\<lambda>j. ''Colonne_'' @ str_nat (j + 1)) [0..<length r0]" "r0 # rest"]
  by (simp add: table_to_df_def header_decision_def Let_def)

lemma table_to_df_Inr: "data \<noteq> [] \<Longrightarrow> \<exists>df. table_to_df data = Inr df"
  by (cases data) (simp_all add: table_to_df_total)

lemma scrape_tables_step:
  "scrape_tables (t # ts) acc = scrape_tables ts (acc @ candidates [t])"
proof (cases "extract_rows t = [] \<or> length (extract_rows t) < 2")
  case True
  then show ?thesis by (auto simp: candidates_def Let_def)
next
  case False
  then obtain df where df: "table_to_df (extract_rows t) = Inr df"
    using table_to_df_Inr by blast
  with False show ?thesis by (auto simp: candidates_def Let_def)
qed

lemma scrape_tables_candidates:
  "scrape_tables ts acc = Inr (acc @ concat (map (\<lambda>t. candidates [t]) ts))"
proof (induction ts arbitrary: acc)
  case Nil
  then show ?case by simp
next
  case (Cons t ts)
  show ?case by (simp only: scrape_tables_step Cons.IH) simp
qed

lemma candidates_concat: "candidates ts = concat (map (\<lambda>t. candidates [t]) ts)"
  unfolding candidates_def [of ts] by (simp add: scrape_tables_candidates)

lemma candidates_append: "candidates (xs @ ys) = candidates xs @ candidates ys"
  by (simp add: candidates_concat [of "xs @ ys"] candidates_concat [of xs] candidates_concat [of ys])

lemma candidates_Cons: "candidates (t # ts) = candidates [t] @ candidates ts"
  using candidates_append [of "[t]" ts] by simp

lemma candidates_Nil: "candidates [] = []"
  by (simp add: candidates_def)

lemma scrape_tables_Inr: "scrape_tables ts [] = Inr (candidates ts)"
  by (simp add: scrape_tables_candidates candidates_concat [of ts])

lemma manual_table_scraping_candidates:
  "manual_table_scraping tables =
     (case candidates tables of [] \<Rightarrow> None | c # cs \<Rightarrow> Some (py_max area c cs))"
  by (cases "tables = []")
     (simp_all add: manual_table_scraping_def scrape_tables_Inr candidates_Nil split: list.splits)

lemma candidate_single_nonempty: "c \<in> set (candidates [t]) \<Longrightarrow> \<not> df_empty c"
proof (cases "extract_rows t = [] \<or> length (extract_rows t) < 2")
  case True
  assume "c \<in> set (candidates [t])"
  with True show ?thesis by (auto simp: candidates_def Let_def)
next
  case False
  assume c: "c \<in> set (candidates [t])"
  from False obtain df where df: "table_to_df (extract_rows t) = Inr df"
    using table_to_df_Inr by blast
  with False c show ?thesis by (auto simp: candidates_def Let_def split: if_splits)
qed

lemma candidates_nonempty: "c \<in> set (candidates ts) \<Longrightarrow> \<not> df_empty c"
proof -
  assume "c \<in> set (candidates ts)"
  then have "c \<in> set (concat (map (\<lambda>t. candidates [t]) ts))"
    by (simp only: candidates_concat [of ts])
  then obtain t where "c \<in> set (candidates [t])" by auto
  then show ?thesis by (rule candidate_single_nonempty)
qed

lemma py_max_split:
  "\<exists>pre post. b # xs = pre @ py_max key b xs # post \<and>
     (\<forall>x\<in>set pre. key x < key (py_max key b xs)) \<and>
     (\<forall>x\<in>set post. key x \<le> key (py_max key b xs))"
proof (induction xs arbitrary: b)
  case Nil
  show ?case by (intro exI [of _ "[]"]) simp
next
  case (Cons x xs)
  show ?case
  proof (cases "key x > key b")
    case True
    define m where "m = py_max key x xs"
    have r: "py_max key b (x # xs) = m" using True by (simp add: m_def)
    from Cons.IH [of x] obtain pre post where
      s: "x # xs = pre @ m # post"
      and lt: "\<forall>y\<in>set pre. key y < key m"
      and le: "\<forall>y\<in>set post. key y \<le> key m" unfolding m_def by blast
    have "key x \<le> key m"
    proof (cases pre)
      case Nil
      with s show ?thesis by simp
    next
      case (Cons p pre')
      with s lt show ?thesis by auto
    qed
    with True have bm: "key b < key m" by simp
    have "b # x # xs = (b # pre) @ m # post" using s by simp
    moreover have "\<forall>y\<in>set (b # pre). key y < key m" using lt bm by simp
    ultimately show ?thesis unfolding r using le by blast
  next
    case False
    define m where "m = py_max key b xs"
    have r: "py_max key b (x # xs) = m" using False by (simp add: m_def)
    from Cons.IH [of b] obtain pre post where
      s: "b # xs = pre @ m # post"
      and lt: "\<forall>y\<in>set pre. key y < key m"
      and le: "\<forall>y\<in>set post. key y \<le> key m" unfolding m_def by blast
    show ?thesis
    proof (cases pre)
      case Nil
      with s have mb: "m = b" and xs: "xs = post" by simp_all
      have "b # x # xs = [] @ m # (x # post)" using mb xs by simp
      moreover have "\<forall>y\<in>set (x # post). key y \<le> key m" using le False mb by simp
      ultimately show ?thesis unfolding r by (metis empty_iff list.set(1))
    next
      case (Cons p pre')
      with s have pb: "p = b" and xs: "xs = pre' @ m # post" by simp_all
      from lt Cons pb have "key b < key m" by simp
      with False have xm: "key x < key m" by simp
      have "b # x # xs = (b # x # pre') @ m # post" using xs by simp
      moreover have "\<forall>y\<in>set (b # x # pre'). key y < key m" using lt Cons pb xm by simp
      ultimately show ?thesis unfolding r using le by blast
    qed
  qed
qed


lemma manual_table_scraping_split:
  assumes "candidates tables \<noteq> []"
  shows "\<exists>pre best post. candidates tables = pre @ best # post \<and>
           (\<forall>c\<in>set pre. area c < area best) \<and> (\<forall>c\<in>set post. area c \<le> area best) \<and>
           manual_table_scraping tables = Some best"
proof -
  from assms obtain c cs where cs: "candidates tables = c # cs" by (cases "candidates tables") auto
  from py_max_split [of c cs area] obtain pre post where
    "c # cs = pre @ py_max area c cs # post"
    "\<forall>x\<in>set pre. area x < area (py_max area c cs)"
    "\<forall>x\<in>set post. area x \<le> area (py_max area c cs)" by blast
  moreover have "manual_table_scraping tables = Some (py_max area c cs)"
    by (simp add: manual_table_scraping_candidates cs)
  ultimately show ?thesis unfolding cs by blast
qed

lemma scrape_cacao_ratings_Page:
  "scrape_cacao_ratings (Page tables) =
     (case manual_table_scraping tables of Some df \<Rightarrow> df | None \<Rightarrow> pd_empty)"
proof (cases "candidates tables")
  case Nil
  then show ?thesis by (simp add: scrape_cacao_ratings_def manual_table_scraping_candidates)
next
  case (Cons c cs)
  then have "candidates tables \<noteq> []" by simp
  from manual_table_scraping_split [OF this] obtain pre best post where
    b: "candidates tables = pre @ best # post" "manual_table_scraping tables = Some best" by blast
  then have "best \<in> set (candidates tables)" by simp
  then have "\<not> df_empty best" by (rule candidates_nonempty)
  with b show ?thesis by (simp add: scrape_cacao_ratings_def)
qed

lemma larger_candidate_wins:
  assumes "candidates [t1] = [d1]" "candidates [t2] = [d2]" "area d1 < area d2"
  shows "manual_table_scraping [t1, t2] = Some d2 \<and> manual_table_scraping [t2, t1] = Some d2"
proof -
  have "candidates [t1, t2] = [d1, d2]" "candidates [t2, t1] = [d2, d1]"
    using assms candidates_Cons [of t1 "[t2]"] candidates_Cons [of t2 "[t1]"] by simp_all
  then show ?thesis using assms(3) by (simp add: manual_table_scraping_candidates)
qed

section \<open>The scraper: claims\<close>

lemma area_product: "area t = length (rows t) * length (columns t)"
  by (simp add: area_def shape_def)

lemma equal_candidates_first_wins:
  assumes "candidates [t1] = [d1]" "candidates [t2] = [d2]" "area d1 = area d2"
  shows "manual_table_scraping [t1, t2] = Some d1 \<and> manual_table_scraping [t2, t1] = Some d2"
proof -
  have "candidates [t1, t2] = [d1, d2]" "candidates [t2, t1] = [d2, d1]"
    using assms candidates_Cons [of t1 "[t2]"] candidates_Cons [of t2 "[t1]"] by simp_all
  then show ?thesis using assms(3) by (simp add: manual_table_scraping_candidates)
qed

lemma candidate_of_grid:
  assumes "extract_rows t = r0 # r1 # rest"
  shows "\<exists>d. candidates [t] = [d] \<and> length (columns d) = length r0 \<and>
           length (rows d) =
             (if list_all (\<lambda>h. length h > 0) r0 then length (r1 # rest)
              else length (r0 # r1 # rest))"
proof -
  from assms have "r0 \<in> set (extract_rows t)" by simp
  then have r0: "r0 \<noteq> []" by (simp add: extract_rows_def)
  show ?thesis
    using assms r0 by (simp add: candidates_def Let_def table_to_df_total df_empty_def)
qed

lemma grid_3x2_loses_to_grid_10x5:
  assumes a: "extract_rows ta = [a0, a1, a2]" "length a0 = 2"
    and b: "extract_rows tb = b0 # b1 # brest" "length brest = 8" "length b0 = 5"
  shows "\<exists>d. candidates [tb] = [d] \<and> manual_table_scraping [ta, tb] = Some d \<and>
           manual_table_scraping [tb, ta] = Some d"
proof -
  from candidate_of_grid [OF a(1)] a(2) obtain da where
    da: "candidates [ta] = [da]" "length (columns da) = 2" "length (rows da) \<le> 3"
    by (auto split: if_splits)
  from candidate_of_grid [OF b(1)] b(2) b(3) obtain db where
    db: "candidates [tb] = [db]" "length (columns db) = 5" "9 \<le> length (rows db)"
    by (auto split: if_splits)
  have "length (rows da) * 2 \<le> 6" using da(3) by simp
  moreover have "45 \<le> length (rows db) * 5" using db(3) by simp
  ultimately have "area da < area db" using da(2) db(2) by (simp add: area_product)
  from larger_candidate_wins [OF da(1) db(1) this] db(1) show ?thesis by blast
qed

text \<open>
  Claim C1, as the code has it. The key of line 110 is the product of the two
  dimensions of the frame built from a table: its number of data rows (the first row
  is not counted when it serves as header) times its number of columns. When the
  tables of a page yield at least one candidate, the routine returns a candidate whose
  product is the largest: every candidate before it, in the order of the tables in the
  page, has a strictly smaller product and every candidate after it has no larger one,
  so a tie goes to the first seen; \<^verbatim>\<open>scrape_cacao_ratings\<close> hands the same frame on. Of
  a grid of 3 rows by 2 cells and a grid of 10 rows by 5 cells the second is returned, in
  either order.
\<close>

theorem best_table_is_first_largest:
  "(candidates tables \<noteq> [] \<longrightarrow>
      (\<exists>pre best post. candidates tables = pre @ best # post \<and>
         (\<forall>c\<in>set pre. length (rows c) * length (columns c)
                           < length (rows best) * length (columns best)) \<and>
         (\<forall>c\<in>set post. length (rows c) * length (columns c)
                            \<le> length (rows best) * length (columns best)) \<and>
         manual_table_scraping tables = Some best \<and>
         scrape_cacao_ratings (Page tables) = best)) \<and>
   candidates (ts1 @ ts2) = candidates ts1 @ candidates ts2 \<and>
   (extract_rows t = r0 # r1 # rest \<longrightarrow>
      (\<exists>d. candidates [t] = [d] \<and> length (columns d) = length r0 \<and>
           length (rows d) =
             (if list_all (\<lambda>h. length h > 0) r0 then length (r1 # rest)
              else length (r0 # r1 # rest)))) \<and>
   (candidates [t1] = [d1] \<and> candidates [t2] = [d2] \<and>
    length (rows d1) * length (columns d1) < length (rows d2) * length (columns d2) \<longrightarrow>
      manual_table_scraping [t1, t2] = Some d2 \<and> manual_table_scraping [t2, t1] = Some d2) \<and>
   (candidates [t1] = [d1] \<and> candidates [t2] = [d2] \<and>
    length (rows d1) * length (columns d1) = length (rows d2) * length (columns d2) \<longrightarrow>
      manual_table_scraping [t1, t2] = Some d1 \<and> manual_table_scraping [t2, t1] = Some d2) \<and>
   (extract_rows ta = [a0, a1, a2] \<and> length a0 = 2 \<and>
    extract_rows tb = b0 # b1 # brest \<and> length brest = 8 \<and> length b0 = 5 \<longrightarrow>
      (\<exists>d. candidates [tb] = [d] \<and> manual_table_scraping [ta, tb] = Some d \<and>
           manual_table_scraping [tb, ta] = Some d))"
proof (intro conjI impI)
  assume "candidates tables \<noteq> []"
  from manual_table_scraping_split [OF this] obtain pre best post where
    b: "candidates tables = pre @ best # post" "\<forall>c\<in>set pre. area c < area best"
       "\<forall>c\<in>set post. area c \<le> area best" "manual_table_scraping tables = Some best" by blast
  moreover from b(4) have "scrape_cacao_ratings (Page tables) = best"
    by (simp add: scrape_cacao_ratings_Page)
  ultimately show "\<exists>pre best post. candidates tables = pre @ best # post \<and>
         (\<forall>c\<in>set pre. length (rows c) * length (columns c)
                           < length (rows best) * length (columns best)) \<and>
         (\<forall>c\<in>set post. length (rows c) * length (columns c)
                            \<le> length (rows best) * length (columns best)) \<and>
         manual_table_scraping tables = Some best \<and>
         scrape_cacao_ratings (Page tables) = best"
    unfolding area_product by blast
next
  show "candidates (ts1 @ ts2) = candidates ts1 @ candidates ts2"
    by (rule candidates_append)
next
  assume "extract_rows t = r0 # r1 # rest"
  then show "\<exists>d. candidates [t] = [d] \<and> length (columns d) = length r0 \<and>
           length (rows d) =
             (if list_all (\<lambda>h. length h > 0) r0 then length (r1 # rest)
              else length (r0 # r1 # rest))"
    by (rule candidate_of_grid)
next
  assume h: "candidates [t1] = [d1] \<and> candidates [t2] = [d2] \<and>
    length (rows d1) * length (columns d1) < length (rows d2) * length (columns d2)"
  then have "area d1 < area d2" by (simp add: area_product)
  with h larger_candidate_wins [of t1 d1 t2 d2]
  show "manual_table_scraping [t1, t2] = Some d2" "manual_table_scraping [t2, t1] = Some d2"
    by simp_all
next
  assume h: "candidates [t1] = [d1] \<and> candidates [t2] = [d2] \<and>
    length (rows d1) * length (columns d1) = length (rows d2) * length (columns d2)"
  then have "area d1 = area d2" by (simp add: area_product)
  with h equal_candidates_first_wins [of t1 d1 t2 d2]
  show "manual_table_scraping [t1, t2] = Some d1" "manual_table_scraping [t2, t1] = Some d2"
    by simp_all
next
  assume "extract_rows ta = [a0, a1, a2] \<and> length a0 = 2 \<and>
    extract_rows tb = b0 # b1 # brest \<and> length brest = 8 \<and> length b0 = 5"
  then show "\<exists>d. candidates [tb] = [d] \<and> manual_table_scraping [ta, tb] = Some d \<and>
           manual_table_scraping [tb, ta] = Some d"
    using grid_3x2_loses_to_grid_10x5 [of ta a0 a1 a2 tb b0 b1 brest] by simp
qed

theorem best_table_is_first_largest_witness:
  "candidates [tall_table, small_table, wide_table] = [tall_df, small_df, wide_df] \<and>
   manual_table_scraping [tall_table, small_table, wide_table] = Some small_df \<and>
   scrape_cacao_ratings (Page [tall_table, small_table, wide_table]) = small_df \<and>
   manual_table_scraping [tall_table, small_table] = Some small_df \<and>
   manual_table_scraping [small_table, tall_table] = Some small_df \<and>
   manual_table_scraping [wide_table, small_table] = Some small_df \<and>
   manual_table_scraping [small_table, wide_table] = Some small_df \<and>
   manual_table_scraping [small_table, flat_table] = Some small_df \<and>
   manual_table_scraping [flat_table, small_table] = Some flat_df \<and>
   manual_table_scraping [grid_3x2, grid_10x5] = Some grid_10x5_df \<and>
   manual_table_scraping [grid_10x5, grid_3x2] = Some grid_10x5_df \<and>
   manual_table_scraping [small_table, big_table] = Some big_df \<and>
   manual_table_scraping [big_table, small_table] = Some big_df"
proof -
  have c: "candidates [tall_table] = [tall_df]" "candidates [small_table] = [small_df]"
    "candidates [wide_table] = [wide_df]" "candidates [flat_table] = [flat_df]"
    "candidates [big_table] = [big_df]" "candidates [grid_10x5] = [grid_10x5_df]"
    by code_simp+
  have k: "length (rows tall_df) * length (columns tall_df) = 5"
    "length (rows small_df) * length (columns small_df) = 6"
    "length (rows wide_df) * length (columns wide_df) = 4"
    "length (rows flat_df) * length (columns flat_df) = 6"
    "length (rows big_df) * length (columns big_df) = 50"
    by code_simp+
  have all: "candidates [tall_table, small_table, wide_table] = [tall_df, small_df, wide_df]"
    using best_table_is_first_largest [where ?ts1.0 = "[tall_table]" and ?ts2.0 = "[small_table, wide_table]"]
      best_table_is_first_largest [where ?ts1.0 = "[small_table]" and ?ts2.0 = "[wide_table]"] c
    by simp
  have ne: "candidates [tall_table, small_table, wide_table] \<noteq> []" using all by simp
  from best_table_is_first_largest [where tables = "[tall_table, small_table, wide_table]"]
  have "candidates [tall_table, small_table, wide_table] \<noteq> [] \<longrightarrow>
      (\<exists>pre best post. candidates [tall_table, small_table, wide_table] = pre @ best # post \<and>
         (\<forall>c\<in>set pre. length (rows c) * length (columns c)
                           < length (rows best) * length (columns best)) \<and>
         (\<forall>c\<in>set post. length (rows c) * length (columns c)
                            \<le> length (rows best) * length (columns best)) \<and>
         manual_table_scraping [tall_table, small_table, wide_table] = Some best \<and>
         scrape_cacao_ratings (Page [tall_table, small_table, wide_table]) = best)"
    by (rule conjunct1)
  with ne obtain pre best post where
    b: "candidates [tall_table, small_table, wide_table] = pre @ best # post"
      "\<forall>c\<in>set pre. length (rows c) * length (columns c) < length (rows best) * length (columns best)"
      "\<forall>c\<in>set post. length (rows c) * length (columns c) \<le> length (rows best) * length (columns best)"
      "manual_table_scraping [tall_table, small_table, wide_table] = Some best"
      "scrape_cacao_ratings (Page [tall_table, small_table, wide_table]) = best"
    by blast
  have "best = small_df"
  proof -
    from b(1) all have e: "[tall_df, small_df, wide_df] = pre @ best # post" by simp
    then consider "pre = [] \<and> best = tall_df \<and> post = [small_df, wide_df]"
      | "pre = [tall_df] \<and> best = small_df \<and> post = [wide_df]"
      | "pre = [tall_df, small_df] \<and> best = wide_df \<and> post = []"
      by (cases pre; cases "tl pre"; cases "tl (tl pre)") (auto simp: Cons_eq_append_conv)
    then show ?thesis
    proof cases
      case 1
      with b(3) k show ?thesis by simp
    next
      case 2
      then show ?thesis by simp
    next
      case 3
      with b(2) k show ?thesis by simp
    qed
  qed
  with b have m3: "manual_table_scraping [tall_table, small_table, wide_table] = Some small_df"
    "scrape_cacao_ratings (Page [tall_table, small_table, wide_table]) = small_df" by simp_all
  have lt1: "manual_table_scraping [tall_table, small_table] = Some small_df \<and>
      manual_table_scraping [small_table, tall_table] = Some small_df"
    using best_table_is_first_largest [where ?t1.0 = tall_table and ?d1.0 = tall_df
        and ?t2.0 = small_table and ?d2.0 = small_df] c k by simp
  have lt2: "manual_table_scraping [wide_table, small_table] = Some small_df \<and>
      manual_table_scraping [small_table, wide_table] = Some small_df"
    using best_table_is_first_largest [where ?t1.0 = wide_table and ?d1.0 = wide_df
        and ?t2.0 = small_table and ?d2.0 = small_df] c k by simp
  have tie: "manual_table_scraping [small_table, flat_table] = Some small_df \<and>
      manual_table_scraping [flat_table, small_table] = Some flat_df"
    using best_table_is_first_largest [where ?t1.0 = small_table and ?d1.0 = small_df
        and ?t2.0 = flat_table and ?d2.0 = flat_df] c k by simp
  have big: "manual_table_scraping [small_table, big_table] = Some big_df \<and>
      manual_table_scraping [big_table, small_table] = Some big_df"
    using best_table_is_first_largest [where ?t1.0 = small_table and ?d1.0 = small_df
        and ?t2.0 = big_table and ?d2.0 = big_df] c k by simp
  have ga: "extract_rows grid_3x2 = [[''a'', ''b''], [''1'', ''2''], [''3'', ''4'']]" by code_simp
  have gb: "extract_rows grid_10x5 =
      [''a'', ''b'', ''c'', ''d'', ''e''] # [''1'', ''2'', ''3'', ''4'', ''5'']
        # replicate 8 [''1'', ''2'', ''3'', ''4'', ''5'']" by code_simp
  have grid: "manual_table_scraping [grid_3x2, grid_10x5] = Some grid_10x5_df \<and>
      manual_table_scraping [grid_10x5, grid_3x2] = Some grid_10x5_df"
    using best_table_is_first_largest [where ta = grid_3x2 and ?a0.0 = "[''a'', ''b'']"
        and ?a1.0 = "[''1'', ''2'']" and ?a2.0 = "[''3'', ''4'']" and tb = grid_10x5
        and ?b0.0 = "[''a'', ''b'', ''c'', ''d'', ''e'']" and ?b1.0 = "[''1'', ''2'', ''3'', ''4'', ''5'']"
        and brest = "replicate 8 [''1'', ''2'', ''3'', ''4'', ''5'']"] ga gb c
    by simp
  from all m3 lt1 lt2 tie grid big show ?thesis by simp
qed

theorem grid_area_counterexample:
  "length (extract_rows grid_2x5) * length (hd (extract_rows grid_2x5)) = 10 \<and>
   length (extract_rows flat_table) * length (hd (extract_rows flat_table)) = 9 \<and>
   candidates [flat_table] = [flat_df] \<and>
   manual_table_scraping [grid_2x5, flat_table] = Some flat_df \<and>
   manual_table_scraping [flat_table, grid_2x5] = Some flat_df"
  by code_simp

text \<open>
  Claim C3. For a page with no table, and for any page none of whose tables gives a
  candidate, the extraction returns the empty frame \<^verbatim>\<open>pd.DataFrame()\<close>, of shape
  (0, 0): the helper \<^verbatim>\<open>manual_table_scraping\<close> signals the case by \<^verbatim>\<open>None\<close> and
  \<^verbatim>\<open>scrape_cacao_ratings\<close>, which never raises, turns it into the empty frame.
\<close>

theorem no_candidate_gives_empty_table:
  "(candidates tables = [] \<longrightarrow>
      scrape_cacao_ratings (Page tables) = pd_empty \<and>
      shape (scrape_cacao_ratings (Page tables)) = (0, 0)) \<and>
   candidates [] = [] \<and>
   scrape_cacao_ratings (Page []) = pd_empty"
proof -
  have "scrape_cacao_ratings (Page ts) = pd_empty" if "candidates ts = []" for ts
    using that by (simp add: scrape_cacao_ratings_Page manual_table_scraping_candidates)
  moreover have "shape pd_empty = (0, 0)" by (simp add: shape_def pd_empty_def)
  ultimately show ?thesis by (simp add: candidates_Nil)
qed

theorem no_candidate_gives_empty_table_witness:
  "candidates [one_row_table, []] = [] \<and>
   scrape_cacao_ratings (Page [one_row_table, []]) = \<lparr>columns = [], rows = []\<rparr> \<and>
   shape (scrape_cacao_ratings (Page [one_row_table, []])) = (0, 0)"
proof -
  have c: "candidates [one_row_table, []] = []" by code_simp
  with no_candidate_gives_empty_table [of "[one_row_table, []]"] show ?thesis
    by (simp add: pd_empty_def shape_def)
qed

text \<open>
  Claim C4. Normalization brings a data row to exactly the number of header cells: a
  longer row keeps its first cells, a shorter row is padded at the end with empty
  strings, a row of the right length is kept.
\<close>

theorem normalize_row_length:
  "length (normalize_row k row) = k \<and>
   (k < length row \<longrightarrow> normalize_row k row = take k row) \<and>
   (length row < k \<longrightarrow> normalize_row k row = row @ replicate (k - length row) '''') \<and>
   (length row = k \<longrightarrow> normalize_row k row = row)"
  by (simp add: normalize_row_def)

theorem normalize_row_length_witness:
  "normalize_row 3 [''x''] = [''x'', '''', ''''] \<and>
   normalize_row 3 [''x'', ''y'', ''z'', ''w''] = [''x'', ''y'', ''z''] \<and>
   length (normalize_row 3 [''x'']) = 3 \<and>
   length (normalize_row 3 [''x'', ''y'', ''z'', ''w'']) = 3"
  using normalize_row_length [of 3 "[''x'']"] normalize_row_length [of 3 "[''x'', ''y'', ''z'', ''w'']"]
  by (simp add: numeral_3_eq_3)

text \<open>
  Claim C5. A table with fewer than 2 rows that have cells gives no candidate and does
  not end the loop: the loop goes on with the next table, and the page gives the same
  candidates and the same result as the page without that table. A page whose only
  table has one such row gives no candidate, and the result is the empty frame.
\<close>

theorem short_table_is_skipped:
  "length (extract_rows t) < 2 \<Longrightarrow>
     scrape_tables (t # ts) acc = scrape_tables ts acc \<and>
     candidates (pre @ t # post) = candidates (pre @ post) \<and>
     manual_table_scraping (pre @ t # post) = manual_table_scraping (pre @ post) \<and>
     scrape_cacao_ratings (Page (pre @ t # post)) = scrape_cacao_ratings (Page (pre @ post)) \<and>
     candidates [t] = [] \<and>
     manual_table_scraping [t] = None \<and>
     scrape_cacao_ratings (Page [t]) = pd_empty"
proof -
  assume short: "length (extract_rows t) < 2"
  then have step: "scrape_tables (t # ts') acc' = scrape_tables ts' acc'" for ts' acc'
    by (simp add: Let_def)
  then have one: "candidates [t] = []"
    by (simp add: candidates_def)
  have c: "candidates (pre @ t # post) = candidates (pre @ post)"
    using candidates_append [of pre "t # post"] candidates_Cons [of t post]
      candidates_append [of pre post] one by simp
  then have m: "manual_table_scraping (pre @ t # post) = manual_table_scraping (pre @ post)"
    by (simp add: manual_table_scraping_candidates)
  have "manual_table_scraping [t] = None"
    by (simp add: manual_table_scraping_candidates one)
  with step c m one show ?thesis by (simp add: scrape_cacao_ratings_Page)
qed

theorem short_table_is_skipped_witness:
  "length (extract_rows one_row_table) = 1 \<and>
   candidates [one_row_table] = [] \<and>
   manual_table_scraping [one_row_table] = None \<and>
   scrape_cacao_ratings (Page [one_row_table]) = pd_empty \<and>
   manual_table_scraping [one_row_table, small_table] = manual_table_scraping [small_table] \<and>
   manual_table_scraping [small_table] = Some small_df"
proof -
  have l: "length (extract_rows one_row_table) = 1" by code_simp
  have s: "manual_table_scraping [small_table] = Some small_df" by code_simp
  from l short_table_is_skipped [of one_row_table "[]" "[]" "[]" "[small_table]"] s
  show ?thesis by simp
qed

text \<open>
  Claim C6, as the code has it. For a table with at least two rows that have cells:
  when every cell of the first row is a non-empty string, the first row is the header
  and the following rows, normalized, are the data; otherwise the header is
  \<^verbatim>\<open>Colonne_1\<close> ... \<^verbatim>\<open>Colonne_k\<close>, \<open>k\<close> the length of the first row, and the first row
  stays as the first data row. The names are \<^verbatim>\<open>Colonne_n\<close>, not \<^verbatim>\<open>Column_n\<close>.
\<close>

theorem header_or_positional_names:
  "extract_rows t = r0 # r1 # rest \<Longrightarrow>
     candidates [t] =
       [if list_all (\<lambda>h. length h > 0) r0
        then \<lparr>columns = r0,
              rows = map (map Str \<circ> normalize_row (length r0)) (r1 # rest)\<rparr>
        else \<lparr>columns = map (\<lambda>j. ''Colonne_'' @ str_nat (j + 1)) [0..<length r0],
              rows = map Str r0 # map (map Str \<circ> normalize_row (length r0)) (r1 # rest)\<rparr>]"
proof -
  assume e: "extract_rows t = r0 # r1 # rest"
  then have "r0 \<in> set (extract_rows t)" by simp
  then have r0: "r0 \<noteq> []" by (simp add: extract_rows_def)
  have n: "normalize_row (length r0) r0 = r0" by (simp add: normalize_row_def)
  show ?thesis
    using e r0 n
    by (simp add: candidates_def Let_def table_to_df_total df_empty_def)
qed

theorem header_or_positional_names_witness:
  "candidates [small_table] =
     [\<lparr>columns = [''a'', ''b''],
       rows = [[Str ''1'', Str ''2''], [Str ''3'', Str ''4''], [Str ''5'', Str ''6'']]\<rparr>] \<and>
   candidates [blank_header_table] =
     [\<lparr>columns = [''Colonne_1'', ''Colonne_2''],
       rows = [[Str '''', Str ''x''], [Str ''1'', Str ''2'']]\<rparr>]"
proof -
  have e1: "extract_rows small_table = [''a'', ''b''] # [''1'', ''2''] # [[''3'', ''4''], [''5'', ''6'']]"
    by code_simp
  have e2: "extract_rows blank_header_table = ['''', ''x''] # [''1'', ''2''] # []"
    by code_simp
  have n: "map (\<lambda>j. ''Colonne_'' @ str_nat (j + 1)) [0..<length ['''', ''x'']] = [''Colonne_1'', ''Colonne_2'']"
    by code_simp
  have n1: "map (map Str \<circ> normalize_row (length [''a'', ''b''])) ([''1'', ''2''] # [[''3'', ''4''], [''5'', ''6'']])
      = [[Str ''1'', Str ''2''], [Str ''3'', Str ''4''], [Str ''5'', Str ''6'']]"
    by code_simp
  have n2: "map (map Str \<circ> normalize_row (length ['''', ''x''])) ([''1'', ''2''] # []) = [[Str ''1'', Str ''2'']]"
    by code_simp
  from header_or_positional_names [OF e1] header_or_positional_names [OF e2] n n1 n2
  show ?thesis by simp
qed

theorem column_names_counterexample:
  "map columns (candidates [blank_header_table]) = [[''Colonne_1'', ''Colonne_2'']] \<and>
   [''Colonne_1'', ''Colonne_2''] \<noteq> [''Column_1'', ''Column_2'']"
  by code_simp

section \<open>Imputation\<close>

lemma filter_is_index: "j < n \<Longrightarrow> filter (\<lambda>i. i = j) [0..<n] = [j]"
  by (induction n) (auto simp: less_Suc_eq filter_empty_conv)

lemma filter_index_distinct:
  assumes "distinct xs" "j < length xs"
  shows "filter (\<lambda>i. xs ! i = xs ! j) [0..<length xs] = [j]"
proof -
  have "filter (\<lambda>i. xs ! i = xs ! j) [0..<length xs] = filter (\<lambda>i. i = j) [0..<length xs]"
    using assms by (intro filter_cong) (auto simp: nth_eq_iff_index_eq)
  then show ?thesis using assms(2) by (simp add: filter_is_index)
qed

lemma getitem_distinct:
  assumes "distinct (columns df)" "j < length (columns df)"
  shows "getitem df (columns df ! j) = [column_at df j]"
  using filter_index_distinct [OF assms] by (simp add: getitem_def)

lemma column_at_no_null:
  assumes "wf_df df" "no_missing df" "j < length (columns df)"
  shows "Null \<notin> set (column_at df j)"
proof
  assume "Null \<in> set (column_at df j)"
  then obtain r where r: "r \<in> set (rows df)" "r ! j = Null"
    by (auto simp: column_at_def)
  with assms have "length r = length (columns df)" "Null \<notin> set r"
    by (auto simp: wf_df_def no_missing_def list_all_iff)
  with r(2) assms(3) show False by (metis nth_mem)
qed

lemma impute_columns_complete:
  assumes "wf_df df" "distinct (columns df)" "no_missing df"
  shows "set cs \<subseteq> set (columns df) \<Longrightarrow>
           impute_columns lib df strategy default_strategy cs df_imputed = Inr df_imputed"
proof (induction cs)
  case Nil
  show ?case by simp
next
  case (Cons c cs)
  then obtain j where j: "j < length (columns df)" "c = columns df ! j"
    by (auto simp: in_set_conv_nth)
  have g: "getitem df c = [column_at df j]"
    using getitem_distinct [OF assms(2) j(1)] j(2) by simp
  have "Null \<notin> set (column_at df j)"
    using column_at_no_null [OF assms(1) assms(3) j(1)] .
  with g Cons show ?case by simp
qed

lemma impute_complete:
  assumes "wf_df df" "distinct (columns df)" "no_missing df"
  shows "impute_missing_values lib df strategy default_strategy = Inr df"
  using impute_columns_complete [OF assms, of "columns df"]
  by (simp add: impute_missing_values_def Let_def)

lemma impute_complete_table_unchanged:
  "wf_df df \<Longrightarrow> distinct (columns df) \<Longrightarrow> no_missing df \<Longrightarrow>
     impute_missing_values lib df strategy default_strategy = Inr df \<and>
     impute_twice lib df strategy default_strategy =
       impute_missing_values lib df strategy default_strategy"
  by (simp add: impute_complete impute_twice_def)

lemma length_filter_positions:
  "length (filter (\<lambda>j. xs ! j = x) [0..<length xs]) = length (filter (\<lambda>y. y = x) xs)"
proof -
  have "filter (\<lambda>y. y = x) xs = filter (\<lambda>y. y = x) (map (nth xs) [0..<length xs])"
    by (simp add: map_nth)
  also have "\<dots> = map (nth xs) (filter (\<lambda>j. xs ! j = x) [0..<length xs])"
    by (simp add: filter_map comp_def)
  finally show ?thesis by simp
qed

lemma once_each_distinct:
  "\<forall>x\<in>set xs. length (filter (\<lambda>y. y = x) xs) = 1 \<Longrightarrow> distinct xs"
proof (induction xs)
  case Nil
  show ?case by simp
next
  case (Cons a xs)
  from Cons.prems have "length (filter (\<lambda>y. y = a) xs) = 0" by simp
  then have "filter (\<lambda>y. y = a) xs = []" by simp
  then have a: "a \<notin> set xs" by (auto simp: filter_empty_conv)
  have "\<forall>x\<in>set xs. length (filter (\<lambda>y. y = x) xs) = 1"
  proof
    fix x assume x: "x \<in> set xs"
    with a have "a \<noteq> x" by auto
    moreover from Cons.prems x have "length (filter (\<lambda>y. y = x) (a # xs)) = 1" by simp
    ultimately show "length (filter (\<lambda>y. y = x) xs) = 1" by simp
  qed
  with Cons.IH a show ?case by simp
qed

lemma impute_columns_labels_once:
  "impute_columns lib df strategy default_strategy cs df_imputed = Inr out \<Longrightarrow>
     \<forall>c\<in>set cs. length (getitem df c) = 1"
proof (induction cs arbitrary: df_imputed)
  case Nil
  show ?case by simp
next
  case (Cons c cs)
  from Cons.prems obtain series where g: "getitem df c = [series]"
    by (auto split: list.splits)
  from Cons.prems g obtain acc where "impute_columns lib df strategy default_strategy cs acc = Inr out"
    by (auto split: if_splits sum.splits)
  from Cons.IH [OF this] g show ?case by simp
qed

lemma setitem_columns: "column \<in> set (columns df) \<Longrightarrow> columns (setitem df column series) = columns df"
  by (simp add: setitem_def)

lemma impute_columns_keeps_labels:
  "impute_columns lib df strategy default_strategy cs df_imputed = Inr out \<Longrightarrow>
     set cs \<subseteq> set (columns df_imputed) \<Longrightarrow> columns out = columns df_imputed"
proof (induction cs arbitrary: df_imputed)
  case Nil
  then show ?case by simp
next
  case (Cons c cs)
  from Cons.prems(1) obtain series where g: "getitem df c = [series]"
    by (auto split: list.splits)
  show ?case
  proof (cases "Null \<in> set series")
    case False
    with Cons.prems g have "impute_columns lib df strategy default_strategy cs df_imputed = Inr out"
      by simp
    from Cons.IH [OF this] Cons.prems(2) show ?thesis by simp
  next
    case True
    with Cons.prems(1) g obtain filled where
      r: "impute_columns lib df strategy default_strategy cs (setitem df_imputed c filled) = Inr out"
      by (auto split: sum.splits)
    from Cons.prems(2) have c: "c \<in> set (columns df_imputed)" by simp
    then have k: "columns (setitem df_imputed c filled) = columns df_imputed"
      by (rule setitem_columns)
    from Cons.IH [OF r] Cons.prems(2) k show ?thesis by simp
  qed
qed

lemma impute_result_distinct_labels:
  assumes "impute_missing_values lib df0 strategy default_strategy = Inr df"
  shows "columns df = columns df0 \<and> distinct (columns df)"
proof -
  from assms obtain st where
    r: "impute_columns lib df0 st default_strategy (columns df0) df0 = Inr df"
    by (simp add: impute_missing_values_def Let_def)
  from impute_columns_keeps_labels [OF r] have k: "columns df = columns df0" by simp
  from impute_columns_labels_once [OF r]
  have "\<forall>c\<in>set (columns df0). length (filter (\<lambda>y. y = c) (columns df0)) = 1"
    by (simp add: getitem_def length_filter_positions)
  then have "distinct (columns df0)" by (rule once_each_distinct)
  with k show ?thesis by simp
qed

text \<open>
  A table that a call of \<^verbatim>\<open>impute_missing_values\<close> has returned and that has no
  missing value left is returned as it is by any further call.
\<close>

lemma impute_already_imputed_unchanged:
  assumes "impute_missing_values lib0 df0 strategy0 default_strategy0 = Inr df"
    and "wf_df df" "no_missing df"
  shows "impute_missing_values lib df strategy default_strategy = Inr df"
proof -
  from impute_result_distinct_labels [OF assms(1)] have "distinct (columns df)"
    by (rule conjunct2)
  from impute_complete [OF assms(2) this assms(3)] show ?thesis .
qed

text \<open>
  Claim C7. The claim does not hold of the code for every table without missing
  values. The scraper builds, from a table whose header repeats a name, a frame in
  which two columns share a label; the frame has no missing value, and on it the test
  of line 63 is made on a Series, whose truth value is a ValueError: the call raises
  for every strategy instead of returning its input.
\<close>

theorem impute_twin_labels_raises:
  "candidates [twin_header_table] = [twin_header_df] \<and>
   wf_df twin_header_df \<and> no_missing twin_header_df \<and>
   impute_missing_values lib twin_header_df strategy default_strategy
     = Inl (ValueError AmbiguousTruthValue) \<and>
   impute_twice lib twin_header_df strategy default_strategy
     = Inl (ValueError AmbiguousTruthValue)"
proof -
  have c: "candidates [twin_header_table] = [twin_header_df]" by code_simp
  have w: "wf_df twin_header_df" "no_missing twin_header_df" by code_simp+
  have g: "getitem twin_header_df ''A'' = [[Str ''1''], [Str ''2'']]" by code_simp
  have k: "columns twin_header_df = [''A'', ''A'']" by code_simp
  have "impute_missing_values lib twin_header_df strategy default_strategy
      = Inl (ValueError AmbiguousTruthValue)"
    by (simp add: impute_missing_values_def Let_def k g)
  with c w show ?thesis by (simp add: impute_twice_def)
qed

section \<open>The pipeline\<close>

lemma apply_step_log:
  "apply_step lib t (df, lg) =
     (case apply_step lib t (df, []) of (r, d, l) \<Rightarrow> (r, d, lg @ l))"
  by (simp add: apply_step_def Let_def split: sum.splits)

lemma apply_transformations_log:
  "apply_transformations lib ts (df, lg) =
     (case apply_transformations lib ts (df, []) of (r, d, l) \<Rightarrow> (r, d, lg @ l))"
proof (induction ts arbitrary: df lg)
  case Nil
  show ?case by simp
next
  case (Cons t ts)
  obtain r d l where s: "apply_step lib t (df, []) = (r, d, l)"
    by (cases "apply_step lib t (df, [])") auto
  then have s': "apply_step lib t (df, lg) = (r, d, lg @ l)"
    by (simp add: apply_step_log [of lib t df lg])
  show ?case
  proof (cases r)
    case None
    obtain r2 d2 l2 where t2: "apply_transformations lib ts (d, []) = (r2, d2, l2)"
      by (cases "apply_transformations lib ts (d, [])") auto
    have "apply_transformations lib ts (d, lg @ l) = (r2, d2, (lg @ l) @ l2)"
      using Cons.IH [of d "lg @ l"] t2 by simp
    moreover have "apply_transformations lib ts (d, l) = (r2, d2, l @ l2)"
      using Cons.IH [of d l] t2 by simp
    ultimately show ?thesis using s s' None by simp
  next
    case (Some e)
    with s s' show ?thesis by simp
  qed
qed

lemma apply_transformations_append:
  "apply_transformations lib (xs @ ys) s =
     (case apply_transformations lib xs s of
        (Some e, s') \<Rightarrow> (Some e, s')
      | (None, s') \<Rightarrow> apply_transformations lib ys s')"
  by (induction xs arbitrary: s) (auto split: prod.splits option.splits)

lemma apply_step_unrecognized:
  "func_name u \<notin> set recognized \<Longrightarrow>
     apply_step lib u (df, lg) = (None, df, lg @ [InfoApply (func_name u), WarnUnrecognized (func_name u)])"
  by (simp add: apply_step_def recognized_def Let_def)

lemma apply_transformations_skip:
  assumes "func_name u \<notin> set recognized"
  shows "apply_transformations lib (pre @ u # post) s =
     (case apply_transformations lib pre s of
        (Some e, s') \<Rightarrow> (Some e, s')
      | (None, df, lg) \<Rightarrow>
          apply_transformations lib post
            (df, lg @ [InfoApply (func_name u), WarnUnrecognized (func_name u)]))"
  by (simp add: apply_transformations_append apply_step_unrecognized [OF assms]
      split: prod.splits option.splits)

lemma apply_transformations_skip_table:
  assumes "func_name u \<notin> set recognized"
  shows "fst (apply_transformations lib (pre @ u # post) s) = fst (apply_transformations lib (pre @ post) s) \<and>
         fst (snd (apply_transformations lib (pre @ u # post) s)) =
           fst (snd (apply_transformations lib (pre @ post) s))"
proof -
  obtain r d l where p: "apply_transformations lib pre s = (r, d, l)"
    by (cases "apply_transformations lib pre s") auto
  show ?thesis
  proof (cases r)
    case None
    obtain r2 d2 l2 where q: "apply_transformations lib post (d, []) = (r2, d2, l2)"
      by (cases "apply_transformations lib post (d, [])") auto
    have any: "apply_transformations lib post (d, l') = (r2, d2, l' @ l2)" for l'
      using apply_transformations_log [of lib post d l'] q by simp
    have with_u: "apply_transformations lib (pre @ u # post) s =
        apply_transformations lib post
          (d, l @ [InfoApply (func_name u), WarnUnrecognized (func_name u)])"
      using apply_transformations_skip [OF assms, of lib pre post s] p None by simp
    have without_u: "apply_transformations lib (pre @ post) s = apply_transformations lib post (d, l)"
      using apply_transformations_append [of lib pre post s] p None by simp
    show ?thesis unfolding with_u without_u any by simp
  next
    case (Some e)
    have with_u: "apply_transformations lib (pre @ u # post) s = (Some e, d, l)"
      using apply_transformations_skip [OF assms, of lib pre post s] p Some by simp
    have without_u: "apply_transformations lib (pre @ post) s = (Some e, d, l)"
      using apply_transformations_append [of lib pre post s] p Some by simp
    show ?thesis unfolding with_u without_u by simp
  qed
qed

lemma extract_data_raised_raw:
  "extract_data page p source = (Inl e, p') \<Longrightarrow> raw_data p' = raw_data p"
  by (auto simp: extract_data_def Let_def split: if_splits)

lemma transform_raw: "raw_data (snd (transform lib p ts)) = raw_data p"
  by (auto simp: transform_def split: option.splits prod.splits)

lemma load_raw: "raw_data (fst (snd (load db p destination kw))) = raw_data p"
  by (auto simp: load_def Let_def split: option.splits prod.splits sum.splits)

lemma never_extracted_raw: "never_extracted p \<Longrightarrow> raw_data p = None"
proof (induction rule: never_extracted.induct)
  case constructed
  show ?case by (simp add: ETLPipeline_def)
next
  case (extract_raised p page source e p')
  then show ?case using extract_data_raised_raw by metis
next
  case (after_transform p lib transformations r p')
  then show ?case using transform_raw [of lib p transformations] by simp
next
  case (after_load p db destination kw r' p' db')
  then show ?case using load_raw [of db p destination kw] by simp
qed

text \<open>
  Claim C8. On a pipeline that holds no extracted data (\<^verbatim>\<open>raw_data\<close> is \<^verbatim>\<open>None\<close>),
  \<^verbatim>\<open>transform\<close> raises the ValueError of line 48 for any step list, not an
  AttributeError on \<^verbatim>\<open>None\<close>, and the pipeline is left as it was. Every pipeline on
  which no extraction has succeeded yet is such a pipeline.
\<close>

theorem transform_before_extract:
  "(raw_data p = None \<longrightarrow>
      transform lib p transformations = (Inl (ValueError NoDataToTransform), p)) \<and>
   (never_extracted p \<longrightarrow> raw_data p = None)"
  by (simp add: transform_def never_extracted_raw)

theorem transform_before_extract_witness:
  "never_extracted (snd (extract_data (Page []) ETLPipeline ''csv'')) \<and>
   raw_data (snd (extract_data (Page []) ETLPipeline ''csv'')) = None \<and>
   transform stub_pandas (snd (extract_data (Page []) ETLPipeline ''csv'')) default_transformations
     = (Inl (ValueError NoDataToTransform), snd (extract_data (Page []) ETLPipeline ''csv'')) \<and>
   transform stub_pandas ETLPipeline [] = (Inl (ValueError NoDataToTransform), ETLPipeline)"
proof -
  have e: "extract_data (Page []) ETLPipeline ''csv'' =
      (Inl (ValueError (UnsupportedSource ''csv'')), snd (extract_data (Page []) ETLPipeline ''csv''))"
    by (simp add: extract_data_def Let_def)
  have n: "never_extracted (snd (extract_data (Page []) ETLPipeline ''csv''))"
    by (rule never_extracted.extract_raised [OF never_extracted.constructed e])
  from transform_before_extract [of "snd (extract_data (Page []) ETLPipeline ''csv'')" stub_pandas
      default_transformations] n
    transform_before_extract [of ETLPipeline stub_pandas "[]"] never_extracted.constructed
  show ?thesis by simp
qed

text \<open>
  Claim C9. A step whose name is none of the four the loop knows raises nothing: it
  adds to the log the line of every step and the warning, and leaves the table as it
  is. In a step list, the steps before it run first, and the steps after it run, in
  order, on the table the steps before it left; \<^verbatim>\<open>transform\<close> returns, and holds,
  what it would without the unknown step.
\<close>

theorem unrecognized_step_is_skipped:
  "func_name u \<notin> set recognized \<Longrightarrow>
     apply_step lib u (df, lg) =
       (None, df, lg @ [InfoApply (func_name u), WarnUnrecognized (func_name u)]) \<and>
     apply_transformations lib (pre @ u # post) s =
       (case apply_transformations lib pre s of
          (Some e, s') \<Rightarrow> (Some e, s')
        | (None, df', lg') \<Rightarrow>
            apply_transformations lib post
              (df', lg' @ [InfoApply (func_name u), WarnUnrecognized (func_name u)])) \<and>
     fst (transform lib p (pre @ u # post)) = fst (transform lib p (pre @ post)) \<and>
     transformed_data (snd (transform lib p (pre @ u # post)))
       = transformed_data (snd (transform lib p (pre @ post)))"
proof -
  assume u: "func_name u \<notin> set recognized"
  have t: "fst (transform lib p (pre @ u # post)) = fst (transform lib p (pre @ post)) \<and>
     transformed_data (snd (transform lib p (pre @ u # post)))
       = transformed_data (snd (transform lib p (pre @ post)))"
  proof (cases "raw_data p")
    case None
    then show ?thesis by (simp add: transform_def)
  next
    case (Some raw)
    obtain r d l where a: "apply_transformations lib (pre @ u # post) (raw, logged p @ [InfoTransformStart]) = (r, d, l)"
      by (cases "apply_transformations lib (pre @ u # post) (raw, logged p @ [InfoTransformStart])") auto
    obtain r' d' l' where b: "apply_transformations lib (pre @ post) (raw, logged p @ [InfoTransformStart]) = (r', d', l')"
      by (cases "apply_transformations lib (pre @ post) (raw, logged p @ [InfoTransformStart])") auto
    from apply_transformations_skip_table [OF u, of lib pre post "(raw, logged p @ [InfoTransformStart])"] a b
    have "r = r'" "d = d'" by simp_all
    with Some a b show ?thesis by (cases r') (simp_all add: transform_def)
  qed
  from apply_step_unrecognized [OF u] apply_transformations_skip [OF u] t
  show ?thesis by simp
qed

theorem unrecognized_step_is_skipped_witness:
  "func_name unknown_step \<notin> set recognized \<and>
   apply_transformations stub_pandas [impute_step, unknown_step, impute_step] (small_df, []) =
     (None, small_df,
      [InfoApply ''handle_missing_values'', InfoApply ''scale_features'',
       WarnUnrecognized ''scale_features'', InfoApply ''handle_missing_values'']) \<and>
   fst (transform stub_pandas (snd (extract_data (Page [small_table]) ETLPipeline ''web_scraping''))
          [impute_step, unknown_step, impute_step]) = Inr small_df"
proof -
  have h: "func_name unknown_step \<notin> set recognized" by code_simp
  have a: "apply_transformations stub_pandas [impute_step] (small_df, []) =
      (None, small_df, [InfoApply ''handle_missing_values''])" by code_simp
  have b: "apply_transformations stub_pandas [impute_step]
      (small_df, [InfoApply ''handle_missing_values'', InfoApply ''scale_features'', WarnUnrecognized ''scale_features'']) =
      (None, small_df, [InfoApply ''handle_missing_values'', InfoApply ''scale_features'',
       WarnUnrecognized ''scale_features'', InfoApply ''handle_missing_values''])" by code_simp
  have n: "func_name unknown_step = ''scale_features''" by code_simp
  have c: "fst (transform stub_pandas (snd (extract_data (Page [small_table]) ETLPipeline ''web_scraping''))
          ([impute_step] @ [impute_step])) = Inr small_df" by code_simp
  from unrecognized_step_is_skipped [OF h, of stub_pandas small_df "[]" "[impute_step]" "[impute_step]" "(small_df, [])"
      "snd (extract_data (Page [small_table]) ETLPipeline ''web_scraping'')"] a b c h n
  show ?thesis by simp
qed

section \<open>A run on the empty table\<close>

lemma scrape_empty_is_pd_empty:
  "df_empty (scrape_cacao_ratings page) \<Longrightarrow> scrape_cacao_ratings page = pd_empty"
  by (auto simp: scrape_cacao_ratings_def split: fetched.splits option.splits if_splits)

lemma df_empty_pd_empty: "df_empty pd_empty"
  by (simp add: df_empty_def pd_empty_def)

lemma impute_pd_empty:
  "impute_missing_values lib pd_empty strategy default_strategy = Inr pd_empty"
  by (simp add: impute_missing_values_def pd_empty_def Let_def)

lemma encode_columns_no_columns:
  "columns df = [] \<Longrightarrow> encode_columns lib df drop_first names df_encoded = Inr df_encoded"
  by (induction names) simp_all

lemma one_hot_encode_pd_empty:
  "one_hot_encode lib pd_empty cols drop_first = Inr d \<Longrightarrow> d = pd_empty"
  by (auto simp: one_hot_encode_def pd_empty_def encode_columns_no_columns
      split: if_splits sum.splits)

lemma create_date_features_pd_empty:
  "create_date_features lib pd_empty date_column = Inr d \<Longrightarrow> d = pd_empty"
  by (cases date_column) (simp_all add: create_date_features_def pd_empty_def)

lemma apply_step_pd_empty:
  "fst (snd (apply_step lib t (pd_empty, lg))) = pd_empty"
  by (auto simp: apply_step_def Let_def call_impute_missing_values_def call_one_hot_encode_def
      call_create_date_features_def impute_pd_empty
      dest: one_hot_encode_pd_empty create_date_features_pd_empty
      split: sum.splits)

lemma apply_transformations_pd_empty:
  "fst (snd (apply_transformations lib ts (pd_empty, lg))) = pd_empty"
proof (induction ts arbitrary: lg)
  case Nil
  show ?case by simp
next
  case (Cons t ts)
  obtain r d l where s: "apply_step lib t (pd_empty, lg) = (r, d, l)"
    by (cases "apply_step lib t (pd_empty, lg)") auto
  with apply_step_pd_empty [of lib t lg] have d: "d = pd_empty" by simp
  show ?case using s d Cons.IH [of l] by (cases r) simp_all
qed

lemma transform_pd_empty:
  assumes "raw_data p = Some pd_empty"
  shows "transformed_data (snd (transform lib p ts)) = Some pd_empty \<and>
         (\<forall>df. fst (transform lib p ts) = Inr df \<longrightarrow> df = pd_empty)"
proof -
  obtain r d l where a: "apply_transformations lib ts (pd_empty, logged p @ [InfoTransformStart]) = (r, d, l)"
    by (cases "apply_transformations lib ts (pd_empty, logged p @ [InfoTransformStart])") auto
  with apply_transformations_pd_empty [of lib ts "logged p @ [InfoTransformStart]"]
  have "d = pd_empty" by simp
  with a assms show ?thesis by (cases r) (simp_all add: transform_def)
qed

lemma load_dataframe_empty:
  "df_empty df \<Longrightarrow> load_dataframe db ld df table_name if_exists = (Inr False, db)"
  by (simp add: load_dataframe_def)

lemma load_pd_empty:
  assumes "transformed_data p = Some pd_empty"
  shows "fst (load db p destination kw) \<noteq> Inr True \<and> snd (snd (load db p destination kw)) = db"
  using assms
  by (simp add: load_def Let_def load_dataframe_empty [OF df_empty_pd_empty] split: sum.splits)

lemma run_pipeline_empty:
  assumes "scrape_cacao_ratings page = pd_empty"
  shows "fst (run_pipeline lib page db p source transformations destination source_kwargs load_kwargs) = False \<and>
         snd (snd (run_pipeline lib page db p source transformations destination source_kwargs load_kwargs)) = db"
proof (cases "source = ''web_scraping'' \<and>
    \<not> (''source'' \<in> set (map fst source_kwargs) \<or> ''self'' \<in> set (map fst source_kwargs))")
  case False
  then show ?thesis
    by (auto simp: run_pipeline_def extract_data_def Let_def)
next
  case True
  define p0 where "p0 = p\<lparr>logged := logged p @ [InfoRunStart]\<rparr>"
  define p1 where "p1 = snd (extract_data page p0 source)"
  have e: "extract_data page p0 source = (Inr pd_empty, p1)"
    using True assms by (simp add: p1_def extract_data_def Let_def)
  have raw: "raw_data p1 = Some pd_empty"
    using True assms by (simp add: p1_def extract_data_def Let_def)
  define ts where "ts = (case transformations of None \<Rightarrow> default_transformations | Some ts \<Rightarrow> ts)"
  obtain r p2 where t: "transform lib p1 ts = (r, p2)"
    by (cases "transform lib p1 ts") auto
  from transform_pd_empty [OF raw, of lib ts] t
  have td: "transformed_data p2 = Some pd_empty" by simp
  obtain r3 p3 db3 where l: "load db p2 destination load_kwargs = (r3, p3, db3)"
    by (cases "load db p2 destination load_kwargs") auto
  from load_pd_empty [OF td, of db destination load_kwargs] l
  have l3: "r3 \<noteq> Inr True" "db3 = db" by simp_all
  show ?thesis
    using True e t l l3
    by (cases r; cases r3)
       (auto simp: run_pipeline_def Let_def p0_def [symmetric] ts_def [symmetric])
qed

text \<open>
  Claim C10. \<^verbatim>\<open>load_dataframe\<close> on an empty table (one with no rows in
  particular) returns False and leaves the database as it was: no connection, no
  write. A run whose extraction gave the empty table returns False, whatever the
  steps, the destination and the options, and the database is as it was.
\<close>

theorem empty_table_is_not_loaded:
  "(df_empty df \<longrightarrow> load_dataframe db ld df table_name if_exists = (Inr False, db)) \<and>
   (rows df = [] \<longrightarrow> df_empty df) \<and>
   (df_empty (scrape_cacao_ratings page) \<longrightarrow>
      fst (run_pipeline lib page db p source transformations destination source_kwargs load_kwargs)
        = False \<and>
      snd (snd (run_pipeline lib page db p source transformations destination source_kwargs
                  load_kwargs)) = db)"
  using run_pipeline_empty [OF scrape_empty_is_pd_empty]
  by (simp add: load_dataframe_empty df_empty_def)

theorem empty_table_is_not_loaded_witness:
  "df_empty \<lparr>columns = [''a''], rows = []\<rparr> \<and>
   load_dataframe open_db \<lparr>engine = Some ()\<rparr> \<lparr>columns = [''a''], rows = []\<rparr> ''cacao_ratings'' ''replace''
     = (Inr False, open_db) \<and>
   df_empty (scrape_cacao_ratings (Page [one_row_table])) \<and>
   fst (run_pipeline stub_pandas (Page [one_row_table]) open_db ETLPipeline ''web_scraping''
          (Some []) ''postgres'' [] []) = False \<and>
   snd (snd (run_pipeline stub_pandas (Page [one_row_table]) open_db ETLPipeline ''web_scraping''
          (Some []) ''postgres'' [] [])) = open_db"
proof -
  have h1: "df_empty \<lparr>columns = [''a''], rows = []\<rparr>" by (simp add: df_empty_def)
  have h2: "rows \<lparr>columns = [''a''], rows = []\<rparr> = []" by simp
  have h3: "df_empty (scrape_cacao_ratings (Page [one_row_table]))" by code_simp
  from empty_table_is_not_loaded [of "\<lparr>columns = [''a''], rows = []\<rparr>" open_db "\<lparr>engine = Some ()\<rparr>"
      "''cacao_ratings''" "''replace''" "Page [one_row_table]" stub_pandas ETLPipeline "''web_scraping''"
      "Some []" "''postgres''" "[]" "[]"] h1 h2 h3
  show ?thesis by simp
qed




section \<open>Further properties\<close>

text \<open>
  Every candidate the scraper collects is a well-formed frame (each row has one cell
  per column), has no missing value and is not empty.
\<close>

lemma candidates_single_wf: "c \<in> set (candidates [t]) \<Longrightarrow> wf_df c \<and> no_missing c"
proof (cases "extract_rows t")
  case Nil
  assume "c \<in> set (candidates [t])"
  with Nil show ?thesis by (simp add: candidates_def)
next
  case (Cons r0 rest)
  assume c: "c \<in> set (candidates [t])"
  show ?thesis
  proof (cases rest)
    case Nil
    with Cons c show ?thesis by (simp add: candidates_def)
  next
    case (Cons r1 rest')
    with \<open>extract_rows t = r0 # rest\<close> c show ?thesis
      by (auto simp: candidates_def Let_def table_to_df_total wf_df_def no_missing_def
          length_normalize_row list_all_iff split: if_splits)
  qed
qed

lemma candidates_well_formed:
  "c \<in> set (candidates ts) \<Longrightarrow> wf_df c \<and> no_missing c \<and> \<not> df_empty c"
proof -
  assume c: "c \<in> set (candidates ts)"
  then have "c \<in> set (concat (map (\<lambda>t. candidates [t]) ts))"
    by (simp only: candidates_concat [of ts])
  then obtain t where "c \<in> set (candidates [t])" by auto
  then have "wf_df c \<and> no_missing c" by (rule candidates_single_wf)
  with candidates_nonempty [OF c] show ?thesis by simp
qed

text \<open>
  The step list used when none is given ends with \<^verbatim>\<open>validate_data\<close> and no
  \<^verbatim>\<open>expected_types\<close>, which \<^verbatim>\<open>validate_data_types\<close> requires: \<^verbatim>\<open>transform\<close> raises
  on it, and a run without a step list returns False.
\<close>

lemma validate_without_types_raises:
  "apply_step lib \<lparr>func_name = ''validate_data'', params = []\<rparr> s =
     (Some TypeError, fst s, snd s @ [InfoApply ''validate_data''])"
  by (simp add: apply_step_def call_validate_data_types_def bind_kwargs_def Let_def)

lemma default_transformations_raise:
  "\<exists>e s'. apply_transformations lib default_transformations s = (Some e, s')"
  by (auto simp: default_transformations_def validate_without_types_raises
      split: prod.splits option.splits)

lemma transform_default_raises:
  "\<exists>e p'. transform lib p default_transformations = (Inl e, p')"
proof (cases "raw_data p")
  case None
  then show ?thesis by (simp add: transform_def)
next
  case (Some raw)
  from default_transformations_raise [of lib "(raw, logged p @ [InfoTransformStart])"]
  obtain e d l where "apply_transformations lib default_transformations
      (raw, logged p @ [InfoTransformStart]) = (Some e, d, l)" by auto
  with Some show ?thesis by (simp add: transform_def)
qed

lemma default_run_fails:
  "fst (run_pipeline lib page db p source None destination source_kwargs load_kwargs) = False"
proof -
  have "\<And>q t p1. transform lib q default_transformations \<noteq> (Inr t, p1)"
    using transform_default_raises [of lib] by (metis Inl_Inr_False Pair_inject)
  then show ?thesis
    by (auto simp: run_pipeline_def Let_def split: prod.splits sum.splits)
qed

end
